theory Spec2Isabelle
  imports Main "HOL-Library.Sublist"
begin

section \<open>Python strings\<close>

text \<open>
  A Python \<^verbatim>\<open>str\<close> is a sequence of Unicode code points, and \<^verbatim>\<open>find\<close>, slicing,
  \<^verbatim>\<open>strip\<close> and \<^verbatim>\<open>len\<close> count code points. The model is a list of code point
  numbers; \<open>lit\<close> writes an ASCII literal of the source.
\<close>

type_synonym pystr = "nat list"

definition lit :: "string \<Rightarrow> pystr" where
  "lit s = map of_char s"

text \<open>\<^verbatim>\<open>s.startswith(p)\<close>.\<close>

fun startswith :: "pystr \<Rightarrow> pystr \<Rightarrow> bool" where
  "startswith s [] = True"
| "startswith [] (p # ps) = False"
| "startswith (c # cs) (p # ps) = (c = p \<and> startswith cs ps)"

text \<open>
  The offset of the first occurrence of \<open>sub\<close> in \<open>s\<close>, the engine of \<^verbatim>\<open>find\<close>,
  \<^verbatim>\<open>in\<close>, \<^verbatim>\<open>split\<close> and \<^verbatim>\<open>replace\<close>.
\<close>

fun first_occ :: "pystr \<Rightarrow> pystr \<Rightarrow> nat option" where
  "first_occ sub [] = (if sub = [] then Some 0 else None)"
| "first_occ sub (c # cs) =
     (if startswith (c # cs) sub then Some 0 else map_option Suc (first_occ sub cs))"

text \<open>\<^verbatim>\<open>s.find(sub, start)\<close> for \<open>start \<ge> 0\<close>: the lowest index, or \<open>-1\<close>.\<close>

definition find_from :: "pystr \<Rightarrow> pystr \<Rightarrow> int \<Rightarrow> int" where
  "find_from s sub start =
     (if int (length s) < start then - 1
      else case first_occ sub (drop (nat start) s) of
             None \<Rightarrow> - 1
           | Some i \<Rightarrow> start + int i)"

definition find :: "pystr \<Rightarrow> pystr \<Rightarrow> int" where
  "find s sub = find_from s sub 0"

text \<open>\<^verbatim>\<open>sub in s\<close>.\<close>

definition contains :: "pystr \<Rightarrow> pystr \<Rightarrow> bool" where
  "contains s sub = (first_occ sub s \<noteq> None)"

text \<open>The offset of the last occurrence, and \<^verbatim>\<open>s.rfind(sub)\<close>.\<close>

fun last_occ :: "pystr \<Rightarrow> pystr \<Rightarrow> nat option" where
  "last_occ sub [] = (if sub = [] then Some 0 else None)"
| "last_occ sub (c # cs) =
     (case last_occ sub cs of
        Some i \<Rightarrow> Some (Suc i)
      | None \<Rightarrow> if startswith (c # cs) sub then Some 0 else None)"

definition rfind :: "pystr \<Rightarrow> pystr \<Rightarrow> int" where
  "rfind s sub = (case last_occ sub s of None \<Rightarrow> - 1 | Some i \<Rightarrow> int i)"

text \<open>
  Slicing \<^verbatim>\<open>s[a:b]\<close>, \<^verbatim>\<open>s[a:]\<close> and \<^verbatim>\<open>s[:b]\<close> of a string or a list: a negative
  bound counts from the end, and both bounds are clipped to the length.
\<close>

definition clip :: "'a list \<Rightarrow> int \<Rightarrow> nat" where
  "clip s i = (let n = int (length s) in nat (min n (if i < 0 then max 0 (n + i) else i)))"

definition slice :: "'a list \<Rightarrow> int \<Rightarrow> int \<Rightarrow> 'a list" where
  "slice s a b = take (clip s b - clip s a) (drop (clip s a) s)"

definition slice_from :: "'a list \<Rightarrow> int \<Rightarrow> 'a list" where
  "slice_from s a = drop (clip s a) s"

definition slice_to :: "'a list \<Rightarrow> int \<Rightarrow> 'a list" where
  "slice_to s b = take (clip s b) s"

text \<open>
  \<^verbatim>\<open>s.strip()\<close> removes the characters of \<^verbatim>\<open>str.isspace\<close> from both ends: the ASCII
  blanks and separators and the Unicode spaces.
\<close>

definition isspace :: "nat \<Rightarrow> bool" where
  "isspace c \<longleftrightarrow>
     (9 \<le> c \<and> c \<le> 13) \<or> (28 \<le> c \<and> c \<le> 32) \<or> c = 133 \<or> c = 160 \<or> c = 5760 \<or>
     (8192 \<le> c \<and> c \<le> 8202) \<or> c = 8232 \<or> c = 8233 \<or> c = 8239 \<or> c = 8287 \<or> c = 12288"

definition rstrip :: "pystr \<Rightarrow> pystr" where
  "rstrip s = rev (dropWhile isspace (rev s))"

definition strip :: "pystr \<Rightarrow> pystr" where
  "strip s = rstrip (dropWhile isspace s)"

text \<open>
  \<^verbatim>\<open>s.replace(old, new)\<close> for a non-empty \<open>old\<close>: the occurrences are taken from the
  left and do not overlap.
\<close>

fun replace :: "pystr \<Rightarrow> pystr \<Rightarrow> pystr \<Rightarrow> pystr" where
  "replace [] old new = []"
| "replace (c # cs) old new =
     (if old \<noteq> [] \<and> startswith (c # cs) old
      then new @ replace (drop (length old) (c # cs)) old new
      else c # replace cs old new)"

text \<open>\<^verbatim>\<open>s.split('\n')\<close> and \<^verbatim>\<open>'\n'.join(lines)\<close>.\<close>

fun split_lines :: "pystr \<Rightarrow> pystr list" where
  "split_lines [] = [[]]"
| "split_lines (c # cs) =
     (if c = 10 then [] # split_lines cs
      else case split_lines cs of
             l # ls \<Rightarrow> (c # l) # ls
           | [] \<Rightarrow> [[c]])"

fun join_lines :: "pystr list \<Rightarrow> pystr" where
  "join_lines [] = []"
| "join_lines [l] = l"
| "join_lines (l # ls) = l @ 10 # join_lines ls"

text \<open>\<^verbatim>\<open>s.split(sep, 1)\<close>: at most one cut, at the first occurrence of \<open>sep\<close>.\<close>

definition split1 :: "pystr \<Rightarrow> pystr \<Rightarrow> pystr list" where
  "split1 s sep =
     (case first_occ sep s of
        None \<Rightarrow> [s]
      | Some i \<Rightarrow> [take i s, drop (i + length sep) s])"

section \<open>Cleaning the response and extracting the JSON object\<close>

text \<open>
  The first block of \<^verbatim>\<open>parse_llm_response\<close>: a fenced block tagged \<^verbatim>\<open>json\<close>, or
  else any fenced block, replaces the response by its stripped content when the
  closing fence lies after the opening one; in the second branch a leading
  \<^verbatim>\<open>json\<close> is removed as well.
\<close>

definition clean_response :: "pystr \<Rightarrow> pystr" where
  "clean_response response =
     (if contains response (lit ''```json'') then
        (let start = find response (lit ''```json'') + 7;
             end = find_from response (lit ''```'') start
         in if end > start then strip (slice response start end) else response)
      else if contains response (lit ''```'') then
        (let start = find response (lit ''```'') + 3;
             end = find_from response (lit ''```'') start;
             response = (if end > start then strip (slice response start end) else response)
         in if startswith response (lit ''json'') then strip (slice_from response 4)
            else response)
      else response)"

text \<open>
  The loop that looks for the matching closing brace, over the characters from
  \<open>start_idx\<close> on: \<open>i\<close> is the index of the next character and \<open>brace_count\<close> the
  running count. It returns the index after the brace that brings the count to
  zero (the \<^verbatim>\<open>break\<close>), or \<open>None\<close> when the characters run out.
\<close>

fun match_brace :: "pystr \<Rightarrow> nat \<Rightarrow> int \<Rightarrow> nat option" where
  "match_brace [] i brace_count = None"
| "match_brace (c # cs) i brace_count =
     (if c = 123 then match_brace cs (i + 1) (brace_count + 1)
      else if c = 125 then
        (if brace_count - 1 = 0 then Some (i + 1)
         else match_brace cs (i + 1) (brace_count - 1))
      else match_brace cs (i + 1) brace_count)"

text \<open>
  \<open>end_idx\<close> starts as \<open>start_idx\<close> and is assigned only at the \<^verbatim>\<open>break\<close>; the
  candidate is \<^verbatim>\<open>response[start_idx:end_idx]\<close>.
\<close>

definition end_idx :: "pystr \<Rightarrow> nat \<Rightarrow> nat" where
  "end_idx response start_idx =
     (case match_brace (drop start_idx response) start_idx 0 of
        None \<Rightarrow> start_idx
      | Some e \<Rightarrow> e)"

definition json_str :: "pystr \<Rightarrow> nat \<Rightarrow> pystr" where
  "json_str response start_idx =
     slice response (int start_idx) (int (end_idx response start_idx))"

section \<open>Python values and exceptions\<close>

text \<open>
  The values \<^verbatim>\<open>json.loads\<close> produces, which are also the values the parser reads
  fields from. A float is kept as the lexeme it was read from (floating-point
  arithmetic is outside the model). A dictionary is an association list of its
  items, read with \<open>map_of\<close>.
\<close>

datatype pyval =
    PNone
  | PBool bool
  | PInt int
  | PFloat pystr
  | PStr pystr
  | PList "pyval list"
  | PDict "(pystr \<times> pyval) list"

text \<open>
  The exceptions of the code, each with the text of \<^verbatim>\<open>str(e)\<close>. The texts of
  \<open>ValidationError\<close> abbreviate the library's report.
\<close>

datatype exn =
    JSONDecodeError pystr
  | TypeError pystr
  | AttributeError pystr
  | ValueError pystr
  | ValidationError pystr
  | OtherException pystr

fun exn_str :: "exn \<Rightarrow> pystr" where
  "exn_str (JSONDecodeError m) = m"
| "exn_str (TypeError m) = m"
| "exn_str (AttributeError m) = m"
| "exn_str (ValueError m) = m"
| "exn_str (ValidationError m) = m"
| "exn_str (OtherException m) = m"

text \<open>Sequencing of computations that may raise.\<close>

definition bind :: "exn + 'a \<Rightarrow> ('a \<Rightarrow> exn + 'b) \<Rightarrow> exn + 'b" where
  "bind m f = (case m of Inl e \<Rightarrow> Inl e | Inr x \<Rightarrow> f x)"

fun type_name :: "pyval \<Rightarrow> pystr" where
  "type_name PNone = lit ''NoneType''"
| "type_name (PBool b) = lit ''bool''"
| "type_name (PInt i) = lit ''int''"
| "type_name (PFloat x) = lit ''float''"
| "type_name (PStr s) = lit ''str''"
| "type_name (PList xs) = lit ''list''"
| "type_name (PDict kvs) = lit ''dict''"

text \<open>\<^verbatim>\<open>d.get(key, dflt)\<close>, with \<open>dflt\<close> the default: only a dictionary has the method.\<close>

definition py_get :: "pyval \<Rightarrow> pystr \<Rightarrow> pyval \<Rightarrow> exn + pyval" where
  "py_get d key dflt =
     (case d of
        PDict kvs \<Rightarrow> Inr (case map_of kvs key of Some v \<Rightarrow> v | None \<Rightarrow> dflt)
      | _ \<Rightarrow> Inl (AttributeError
                 (lit [CHR 0x27] @ type_name d @ lit [CHR 0x27] @
                  lit '' object has no attribute '' @ lit [CHR 0x27] @ lit ''get'' @
                  lit [CHR 0x27])))"

text \<open>\<^verbatim>\<open>len(x)\<close>.\<close>

definition py_len :: "pyval \<Rightarrow> exn + nat" where
  "py_len x =
     (case x of
        PStr s \<Rightarrow> Inr (length s)
      | PList xs \<Rightarrow> Inr (length xs)
      | PDict kvs \<Rightarrow> Inr (length kvs)
      | _ \<Rightarrow> Inl (TypeError
                 (lit ''object of type '' @ lit [CHR 0x27] @ type_name x @ lit [CHR 0x27] @
                  lit '' has no len()'')))"

text \<open>
  The items a \<^verbatim>\<open>for\<close> loop visits: the elements of a list, the keys of a
  dictionary, the characters of a string; nothing else can be iterated.
\<close>

definition py_iter :: "pyval \<Rightarrow> exn + pyval list" where
  "py_iter x =
     (case x of
        PList xs \<Rightarrow> Inr xs
      | PDict kvs \<Rightarrow> Inr (map (\<lambda>kv. PStr (fst kv)) kvs)
      | PStr s \<Rightarrow> Inr (map (\<lambda>c. PStr [c]) s)
      | _ \<Rightarrow> Inl (TypeError
                 (lit [CHR 0x27] @ type_name x @ lit [CHR 0x27] @
                  lit '' object is not iterable'')))"

section \<open>The data model\<close>

datatype SeverityLevel = CRITICAL | HIGH | MEDIUM | LOW | INFO

fun severity_value :: "SeverityLevel \<Rightarrow> pystr" where
  "severity_value CRITICAL = lit ''critical''"
| "severity_value HIGH = lit ''high''"
| "severity_value MEDIUM = lit ''medium''"
| "severity_value LOW = lit ''low''"
| "severity_value INFO = lit ''info''"

text \<open>
  \<^verbatim>\<open>SeverityLevel(v)\<close> looks the member up by value and raises \<open>ValueError\<close> when
  there is none.
\<close>

definition SeverityLevel_call :: "pyval \<Rightarrow> exn + SeverityLevel" where
  "SeverityLevel_call v =
     (if v = PStr (lit ''critical'') then Inr CRITICAL
      else if v = PStr (lit ''high'') then Inr HIGH
      else if v = PStr (lit ''medium'') then Inr MEDIUM
      else if v = PStr (lit ''low'') then Inr LOW
      else if v = PStr (lit ''info'') then Inr INFO
      else Inl (ValueError (lit ''not a valid SeverityLevel'')))"

record Finding =
  line_number :: "int option"
  severity :: SeverityLevel
  category :: pystr
  title :: pystr
  description :: pystr
  suggestion :: pystr
  code_snippet :: "pystr option"
  fix_code :: "pystr option"
  documentation_link :: "pystr option"
  severity_reason :: "pystr option"
  examples :: "pystr list option"
  best_practice :: "pystr option"
  effort_minutes :: "int option"
  dimensions :: "(pystr \<times> pyval) list option"

record ReviewResponse =
  file_path :: pystr
  language :: pystr
  findings :: "Finding list"
  summary :: pystr
  total_issues :: int
  token_usage :: "(pystr \<times> pyval) list option"

subsection \<open>Field validation\<close>

text \<open>
  Both records are \<^verbatim>\<open>pydantic\<close> models: the constructor validates every field and
  raises \<open>ValidationError\<close> when one fails. A value already of the field's type is
  accepted as it is, \<^verbatim>\<open>None\<close> is accepted by an \<^verbatim>\<open>Optional\<close> field only, and a
  list field accepts no other JSON value than a list. Whether a value of another
  type is converted (a number for a string field, a numeric string or a float for
  an integer field, a sequence of pairs for a dictionary field) depends on the
  version of the library, so these conversions are parameters of the model.
\<close>

record coercions =
  to_str :: "pyval \<Rightarrow> pystr option"
  to_int :: "pyval \<Rightarrow> int option"
  to_dict :: "pyval \<Rightarrow> (pystr \<times> pyval) list option"

definition invalid :: "string \<Rightarrow> exn + 'a" where
  "invalid model = Inl (ValidationError (lit ''validation error for '' @ lit model))"

definition validate_str :: "coercions \<Rightarrow> string \<Rightarrow> pyval \<Rightarrow> exn + pystr" where
  "validate_str C model v =
     (case v of
        PStr s \<Rightarrow> Inr s
      | PNone \<Rightarrow> invalid model
      | _ \<Rightarrow> (case to_str C v of Some s \<Rightarrow> Inr s | None \<Rightarrow> invalid model))"

definition validate_int :: "coercions \<Rightarrow> string \<Rightarrow> pyval \<Rightarrow> exn + int" where
  "validate_int C model v =
     (case v of
        PInt i \<Rightarrow> Inr i
      | PNone \<Rightarrow> invalid model
      | _ \<Rightarrow> (case to_int C v of Some i \<Rightarrow> Inr i | None \<Rightarrow> invalid model))"

definition validate_dict ::
  "coercions \<Rightarrow> string \<Rightarrow> pyval \<Rightarrow> exn + (pystr \<times> pyval) list" where
  "validate_dict C model v =
     (case v of
        PDict kvs \<Rightarrow> Inr kvs
      | PNone \<Rightarrow> invalid model
      | _ \<Rightarrow> (case to_dict C v of Some kvs \<Rightarrow> Inr kvs | None \<Rightarrow> invalid model))"

fun validate_each :: "('a \<Rightarrow> exn + 'b) \<Rightarrow> 'a list \<Rightarrow> exn + 'b list" where
  "validate_each f [] = Inr []"
| "validate_each f (x # xs) =
     bind (f x) (\<lambda>y. bind (validate_each f xs) (\<lambda>ys. Inr (y # ys)))"

definition validate_str_list :: "coercions \<Rightarrow> string \<Rightarrow> pyval \<Rightarrow> exn + pystr list" where
  "validate_str_list C model v =
     (case v of
        PList xs \<Rightarrow> validate_each (validate_str C model) xs
      | _ \<Rightarrow> invalid model)"

definition optional :: "(pyval \<Rightarrow> exn + 'a) \<Rightarrow> pyval \<Rightarrow> exn + 'a option" where
  "optional validate v =
     (case v of PNone \<Rightarrow> Inr None | _ \<Rightarrow> bind (validate v) (\<lambda>x. Inr (Some x)))"

subsection \<open>Constructing a finding\<close>

text \<open>The validation that \<^verbatim>\<open>Finding(...)\<close> runs on its keyword arguments.\<close>

definition Finding_init ::
  "coercions \<Rightarrow> pyval \<Rightarrow> SeverityLevel \<Rightarrow> pyval \<Rightarrow> pyval \<Rightarrow> pyval \<Rightarrow> pyval \<Rightarrow> pyval \<Rightarrow>
   pyval \<Rightarrow> pyval \<Rightarrow> pyval \<Rightarrow> pyval \<Rightarrow> pyval \<Rightarrow> pyval \<Rightarrow> pyval \<Rightarrow> exn + Finding" where
  "Finding_init C ln sev cat ttl descr sugg snip fix doc reason exs bp eff dims =
     bind (optional (validate_int C ''Finding'') ln) (\<lambda>ln'.
     bind (validate_str C ''Finding'' cat) (\<lambda>cat'.
     bind (validate_str C ''Finding'' ttl) (\<lambda>ttl'.
     bind (validate_str C ''Finding'' descr) (\<lambda>descr'.
     bind (validate_str C ''Finding'' sugg) (\<lambda>sugg'.
     bind (optional (validate_str C ''Finding'') snip) (\<lambda>snip'.
     bind (optional (validate_str C ''Finding'') fix) (\<lambda>fix'.
     bind (optional (validate_str C ''Finding'') doc) (\<lambda>doc'.
     bind (optional (validate_str C ''Finding'') reason) (\<lambda>reason'.
     bind (optional (validate_str_list C ''Finding'') exs) (\<lambda>exs'.
     bind (optional (validate_str C ''Finding'') bp) (\<lambda>bp'.
     bind (optional (validate_int C ''Finding'') eff) (\<lambda>eff'.
     bind (optional (validate_dict C ''Finding'') dims) (\<lambda>dims'.
     Inr \<lparr>line_number = ln', severity = sev, category = cat', title = ttl',
          description = descr', suggestion = sugg', code_snippet = snip',
          fix_code = fix', documentation_link = doc', severity_reason = reason',
          examples = exs', best_practice = bp', effort_minutes = eff',
          dimensions = dims'\<rparr>)))))))))))))"

text \<open>
  The body of the \<^verbatim>\<open>try\<close> in the loop over the raw findings: the arguments are
  read from the record \<open>f\<close> in the order of the call, the severity goes through
  \<^verbatim>\<open>SeverityLevel(...)\<close>, and the constructor validates the rest.
\<close>

definition make_finding :: "coercions \<Rightarrow> pyval \<Rightarrow> exn + Finding" where
  "make_finding C f =
     bind (py_get f (lit ''line_number'') PNone) (\<lambda>ln.
     bind (py_get f (lit ''severity'') (PStr (lit ''info''))) (\<lambda>sv.
     bind (SeverityLevel_call sv) (\<lambda>sev.
     bind (py_get f (lit ''category'') (PStr (lit ''other''))) (\<lambda>cat.
     bind (py_get f (lit ''title'') (PStr [])) (\<lambda>ttl.
     bind (py_get f (lit ''description'') (PStr [])) (\<lambda>descr.
     bind (py_get f (lit ''suggestion'') (PStr [])) (\<lambda>sugg.
     bind (py_get f (lit ''code_snippet'') PNone) (\<lambda>snip.
     bind (py_get f (lit ''fix_code'') PNone) (\<lambda>fix.
     bind (py_get f (lit ''documentation_link'') PNone) (\<lambda>doc.
     bind (py_get f (lit ''severity_reason'') PNone) (\<lambda>reason.
     bind (py_get f (lit ''examples'') PNone) (\<lambda>exs.
     bind (py_get f (lit ''best_practice'') PNone) (\<lambda>bp.
     bind (py_get f (lit ''effort_minutes'') PNone) (\<lambda>eff.
     bind (py_get f (lit ''dimensions'') PNone) (\<lambda>dims.
     Finding_init C ln sev cat ttl descr sugg snip fix doc reason exs bp eff
       dims)))))))))))))))"

text \<open>
  The loop over the raw findings: a record whose construction raises is skipped
  (\<^verbatim>\<open>except Exception: continue\<close>), the others are appended in order.
\<close>

fun collect_findings :: "coercions \<Rightarrow> pyval list \<Rightarrow> Finding list" where
  "collect_findings C [] = []"
| "collect_findings C (f # fs) =
     (case make_finding C f of
        Inr finding \<Rightarrow> finding # collect_findings C fs
      | Inl e \<Rightarrow> collect_findings C fs)"

text \<open>
  \<^verbatim>\<open>ReviewResponse(...)\<close>: the path, the language, the findings and the count are
  of their types at every call; the summary is whatever the caller passes.
\<close>

definition ReviewResponse_init ::
  "coercions \<Rightarrow> pystr \<Rightarrow> pystr \<Rightarrow> Finding list \<Rightarrow> pyval \<Rightarrow> int \<Rightarrow> exn + ReviewResponse" where
  "ReviewResponse_init C path lang fs summ n =
     bind (validate_str C ''ReviewResponse'' summ) (\<lambda>summ'.
     Inr \<lparr>file_path = path, language = lang, findings = fs, summary = summ',
          total_issues = n, token_usage = None\<rparr>)"

section \<open>The repair pass\<close>

text \<open>
  Fix 1 of the source, as the file has it: both pairs of \<^verbatim>\<open>replace\<close> calls have
  the ASCII double quote (34), and then the ASCII apostrophe (39), as the text
  to find and as its replacement.
\<close>

definition fix_quotes :: "pystr \<Rightarrow> pystr" where
  "fix_quotes s =
     (let s = replace (replace s [34] [34]) [34] [34]
      in replace (replace s [39] [39]) [39] [39])"

text \<open>Fix 2, the body of the loop over the lines.\<close>

definition fix_line :: "pystr \<Rightarrow> pystr" where
  \<open>fix_line line =
     (if contains line (lit ''": "'') \<or> contains line (lit ''":"'') then
        (let parts = split1 line (lit ''": "'')
         in if length parts = 2 then
              (let key_part = parts ! 0;
                   value_part = parts ! 1
               in if contains value_part (lit ''",'') \<or> contains value_part (lit ''"}'') then
                    (let value_end = rfind value_part (lit ''",'');
                         value_end = (if value_end = - 1 then rfind value_part (lit ''"}'')
                                      else value_end)
                     in if value_end > 0 then
                          (let value_content = slice_to value_part value_end;
                               rest = slice_from value_part value_end;
                               value_content = replace value_content [34] [92, 34]
                           in key_part @ lit ''": "'' @ value_content @ rest)
                        else line)
                  else line)
            else line)
      else line)\<close>

definition aggressive_fixes :: "pystr \<Rightarrow> pystr" where
  "aggressive_fixes s = join_lines (map fix_line (split_lines (fix_quotes s)))"

section \<open>The parser\<close>

text \<open>
  What follows a successful \<^verbatim>\<open>json.loads\<close>: the message that prints the number of
  findings (its \<^verbatim>\<open>len\<close> can raise), the loop, and the response. The count is the
  length of the list built by the loop; a \<^verbatim>\<open>total_issues\<close> of the JSON is not read.
\<close>

definition report_count :: "pyval \<Rightarrow> exn + nat" where
  "report_count data = bind (py_get data (lit ''findings'') (PList [])) py_len"

definition build_response :: "coercions \<Rightarrow> pyval \<Rightarrow> pystr \<Rightarrow> pystr \<Rightarrow> exn + ReviewResponse" where
  "build_response C data path lang =
     bind (py_get data (lit ''findings'') (PList [])) (\<lambda>raw.
     bind (py_iter raw) (\<lambda>items.
     (let fs = collect_findings C items
      in bind (py_get data (lit ''summary'') (PStr (lit ''Review complete''))) (\<lambda>summ.
         ReviewResponse_init C path lang fs summ (int (length fs))))))"

text \<open>
  The outer \<^verbatim>\<open>try\<close> block. \<open>loads\<close> is \<^verbatim>\<open>json.loads\<close>: it returns the value or
  raises. Only a \<open>JSONDecodeError\<close> is handled by the inner \<^verbatim>\<open>except\<close> clauses,
  every other exception leaves the block. Printing is not modelled.
\<close>

definition parse_body ::
  "(pystr \<Rightarrow> exn + pyval) \<Rightarrow> coercions \<Rightarrow> pystr \<Rightarrow> pystr \<Rightarrow> pystr \<Rightarrow> exn + ReviewResponse" where
  "parse_body loads C response path lang =
     (let response = clean_response response;
          start_idx = find response (lit ''{'')
      in if start_idx = - 1 then
           ReviewResponse_init C path lang []
             (PStr (lit ''Could not find JSON in response'')) 0
         else
           (let js = json_str response (nat start_idx)
            in case loads js of
                 Inr data \<Rightarrow>
                   bind (report_count data) (\<lambda>n. build_response C data path lang)
               | Inl (JSONDecodeError m) \<Rightarrow>
                   (let js = aggressive_fixes js
                    in case loads js of
                         Inr data \<Rightarrow>
                           bind (report_count data) (\<lambda>n. build_response C data path lang)
                       | Inl (JSONDecodeError m2) \<Rightarrow>
                           ReviewResponse_init C path lang []
                             (PStr (lit ''JSON parsing failed: '' @ m2 @
                                    lit ''. Response may be truncated.'')) 0
                       | Inl e2 \<Rightarrow> Inl e2)
               | Inl e \<Rightarrow> Inl e))"

text \<open>
  \<^verbatim>\<open>parse_llm_response\<close>: the block above under \<^verbatim>\<open>except Exception\<close>, whose handler
  builds the diagnostic response.
\<close>

definition parse_llm_response ::
  "(pystr \<Rightarrow> exn + pyval) \<Rightarrow> coercions \<Rightarrow> pystr \<Rightarrow> pystr \<Rightarrow> pystr \<Rightarrow> exn + ReviewResponse" where
  "parse_llm_response loads C response path lang =
     (case parse_body loads C response path lang of
        Inr r \<Rightarrow> Inr r
      | Inl e \<Rightarrow>
          ReviewResponse_init C path lang []
            (PStr (lit ''Error parsing review: '' @ exn_str e)) 0)"

section \<open>The JSON decoder\<close>

text \<open>
  \<^verbatim>\<open>json.loads\<close> of the standard library, for the concrete runs below: the scanner
  of CPython with its strict string rule, its number syntax and the constants
  \<^verbatim>\<open>NaN\<close>, \<^verbatim>\<open>Infinity\<close> and \<^verbatim>\<open>-Infinity\<close>. Every function takes the rest of the
  document together with the index \<open>idx\<close> of its first character, and an error
  carries the message and the index that \<open>JSONDecodeError\<close> reports.
\<close>

datatype jerr = JErr pystr nat | JDepth

definition is_ws :: "nat \<Rightarrow> bool" where
  "is_ws c \<longleftrightarrow> c = 32 \<or> c = 9 \<or> c = 10 \<or> c = 13"

definition skip_ws :: "pystr \<Rightarrow> nat \<Rightarrow> pystr \<times> nat" where
  "skip_ws s idx = (dropWhile is_ws s, idx + length (takeWhile is_ws s))"

definition is_digit :: "nat \<Rightarrow> bool" where
  "is_digit c \<longleftrightarrow> 48 \<le> c \<and> c \<le> 57"

definition hexval :: "nat \<Rightarrow> nat option" where
  "hexval c =
     (if 48 \<le> c \<and> c \<le> 57 then Some (c - 48)
      else if 97 \<le> c \<and> c \<le> 102 then Some (c - 87)
      else if 65 \<le> c \<and> c \<le> 70 then Some (c - 55)
      else None)"

definition hex4 :: "nat \<Rightarrow> nat \<Rightarrow> nat \<Rightarrow> nat \<Rightarrow> nat option" where
  "hex4 a b c d =
     (case (hexval a, hexval b, hexval c, hexval d) of
        (Some w, Some x, Some y, Some z) \<Rightarrow> Some (((w * 16 + x) * 16 + y) * 16 + z)
      | _ \<Rightarrow> None)"

definition unescape :: "nat \<Rightarrow> nat option" where
  "unescape c =
     (if c = 34 \<or> c = 92 \<or> c = 47 then Some c
      else if c = 98 then Some 8
      else if c = 102 then Some 12
      else if c = 110 then Some 10
      else if c = 114 then Some 13
      else if c = 116 then Some 9
      else None)"

text \<open>
  An escape sequence: \<open>es\<close> is the text after the backslash, which is at index
  \<open>idx\<close>. The result is the decoded character and the number of characters read
  after the backslash. A \<^verbatim>\<open>\u\<close> escape needs its four digits and one character
  more; a high surrogate followed by the escape of a low one is joined with it.
\<close>

definition invalid_uXXXX :: pystr where
  "invalid_uXXXX = lit ''Invalid '' @ [92] @ lit ''uXXXX escape''"

definition read_escape :: "pystr \<Rightarrow> nat \<Rightarrow> nat \<Rightarrow> jerr + (nat \<times> nat)" where
  "read_escape es idx begin =
     (case es of
        [] \<Rightarrow> Inl (JErr (lit ''Unterminated string starting at'') begin)
      | e # hs \<Rightarrow>
          if e \<noteq> 117 then
            (case unescape e of
               None \<Rightarrow> Inl (JErr (lit ''Invalid '' @ [92] @ lit ''escape'') idx)
             | Some u \<Rightarrow> Inr (u, 1))
          else if length hs < 5 then Inl (JErr invalid_uXXXX (idx + 1))
          else
            (case hex4 (hs ! 0) (hs ! 1) (hs ! 2) (hs ! 3) of
               None \<Rightarrow> Inl (JErr invalid_uXXXX (idx + 1))
             | Some u \<Rightarrow>
                 if 55296 \<le> u \<and> u \<le> 56319 \<and> 10 < length hs \<and> hs ! 4 = 92 \<and> hs ! 5 = 117
                 then
                   (case hex4 (hs ! 6) (hs ! 7) (hs ! 8) (hs ! 9) of
                      None \<Rightarrow> Inl (JErr invalid_uXXXX (idx + 7))
                    | Some u2 \<Rightarrow>
                        if 56320 \<le> u2 \<and> u2 \<le> 57343 then
                          Inr (65536 + (u - 55296) * 1024 + (u2 - 56320), 11)
                        else Inr (u, 5))
                 else Inr (u, 5)))"

text \<open>
  The string scanner, entered after the opening quote, which is at index
  \<open>begin\<close>; \<open>acc\<close> is the text decoded so far. It returns the string, the rest of
  the document and the index after the closing quote.
\<close>

function scanstring :: "pystr \<Rightarrow> nat \<Rightarrow> nat \<Rightarrow> pystr \<Rightarrow> jerr + (pystr \<times> pystr \<times> nat)" where
  "scanstring [] idx begin acc = Inl (JErr (lit ''Unterminated string starting at'') begin)"
| "scanstring (c # cs) idx begin acc =
     (if c = 34 then Inr (acc, cs, idx + 1)
      else if c = 92 then
        (case read_escape cs idx begin of
           Inl e \<Rightarrow> Inl e
         | Inr (u, k) \<Rightarrow> scanstring (drop k cs) (idx + 1 + k) begin (acc @ [u]))
      else if c \<le> 31 then Inl (JErr (lit ''Invalid control character at'') idx)
      else scanstring cs (idx + 1) begin (acc @ [c]))"
  by pat_completeness auto
termination
  by (relation "measure (\<lambda>(s, idx, begin, acc). length s)") auto

text \<open>
  The number matcher: an optional minus, an integer part without a leading zero,
  a fraction and an exponent when digits follow. It returns the lexeme and
  whether it is a float, or fails where the scanner reports
  \<^verbatim>\<open>Expecting value\<close>.
\<close>

definition match_number :: "pystr \<Rightarrow> (pystr \<times> bool) option" where
  "match_number s =
     (let sign = (if s \<noteq> [] \<and> hd s = 45 then [45] else []);
          s1 = drop (length sign) s
      in case s1 of
           [] \<Rightarrow> None
         | c # cs \<Rightarrow>
             if \<not> is_digit c then None
             else
               (let ds = (if c = 48 then [48] else c # takeWhile is_digit cs);
                    r = drop (length ds) s1;
                    fr = (case r of
                            p # d # r' \<Rightarrow>
                              if p = 46 \<and> is_digit d then [46, d] @ takeWhile is_digit r'
                              else []
                          | _ \<Rightarrow> []);
                    r2 = drop (length fr) r;
                    ex = (case r2 of
                            e # x # r3 \<Rightarrow>
                              if e = 101 \<or> e = 69 then
                                (let sg = (if (x = 45 \<or> x = 43) \<and> r3 \<noteq> [] then [x] else []);
                                     xs = takeWhile is_digit (drop (length sg) (x # r3))
                                 in if xs = [] then [] else [e] @ sg @ xs)
                              else []
                          | _ \<Rightarrow> [])
                in Some (sign @ ds @ fr @ ex, fr \<noteq> [] \<or> ex \<noteq> [])))"

definition int_of_digits :: "pystr \<Rightarrow> int" where
  "int_of_digits ds = foldl (\<lambda>a d. 10 * a + (int d - 48)) 0 ds"

definition number_value :: "pystr \<Rightarrow> bool \<Rightarrow> pyval" where
  "number_value lexeme is_float =
     (if is_float then PFloat lexeme
      else if lexeme \<noteq> [] \<and> hd lexeme = 45 then PInt (- int_of_digits (tl lexeme))
      else PInt (int_of_digits lexeme))"

text \<open>\<^verbatim>\<open>d[key] = value\<close> on the items of a dictionary.\<close>

fun dict_set :: "(pystr \<times> pyval) list \<Rightarrow> pystr \<Rightarrow> pyval \<Rightarrow> (pystr \<times> pyval) list" where
  "dict_set [] k v = [(k, v)]"
| "dict_set ((k', v') # kvs) k v =
     (if k' = k then (k, v) # kvs else (k', v') # dict_set kvs k v)"

text \<open>The message for a missing \<open>:\<close> or \<open>,\<close>, which quotes the character.\<close>

definition expecting_delimiter :: "nat \<Rightarrow> pystr" where
  "expecting_delimiter c = lit ''Expecting '' @ [39, c, 39] @ lit '' delimiter''"

text \<open>
  The terms that are not containers: a string, a literal, a constant or a
  number, at the non-empty text \<open>s\<close>.
\<close>

definition scan_atom :: "pystr \<Rightarrow> nat \<Rightarrow> jerr + (pyval \<times> pystr \<times> nat)" where
  "scan_atom s idx =
     (if hd s = 34 then
        (case scanstring (tl s) (idx + 1) idx [] of
           Inl e \<Rightarrow> Inl e
         | Inr (str, r, i) \<Rightarrow> Inr (PStr str, r, i))
      else if startswith s (lit ''null'') then Inr (PNone, drop 4 s, idx + 4)
      else if startswith s (lit ''true'') then Inr (PBool True, drop 4 s, idx + 4)
      else if startswith s (lit ''false'') then Inr (PBool False, drop 5 s, idx + 5)
      else if startswith s (lit ''NaN'') then Inr (PFloat (lit ''NaN''), drop 3 s, idx + 3)
      else if startswith s (lit ''Infinity'') then
        Inr (PFloat (lit ''Infinity''), drop 8 s, idx + 8)
      else if startswith s (lit ''-Infinity'') then
        Inr (PFloat (lit ''-Infinity''), drop 9 s, idx + 9)
      else
        (case match_number s of
           None \<Rightarrow> Inl (JErr (lit ''Expecting value'') idx)
         | Some (lexeme, is_float) \<Rightarrow>
             Inr (number_value lexeme is_float, drop (length lexeme) s,
                  idx + length lexeme)))"

text \<open>
  After the opening bracket: the blanks are skipped, and the container is empty
  when its closing character \<open>close\<close> comes next.
\<close>

definition after_open :: "pystr \<Rightarrow> nat \<Rightarrow> nat \<Rightarrow> bool \<times> pystr \<times> nat" where
  "after_open s idx close =
     (case skip_ws s idx of
        (r, i) \<Rightarrow> if r \<noteq> [] \<and> hd r = close then (True, tl r, i + 1) else (False, r, i))"

text \<open>The key of a member, its colon and the blanks around it.\<close>

definition read_key :: "pystr \<Rightarrow> nat \<Rightarrow> jerr + (pystr \<times> pystr \<times> nat)" where
  "read_key s idx =
     (if s = [] \<or> hd s \<noteq> 34 then
        Inl (JErr (lit ''Expecting property name enclosed in double quotes'') idx)
      else
        (case scanstring (tl s) (idx + 1) idx [] of
           Inl e \<Rightarrow> Inl e
         | Inr (key, r1, i1) \<Rightarrow>
             (case skip_ws r1 i1 of
                (r2, i2) \<Rightarrow>
                  if r2 = [] \<or> hd r2 \<noteq> 58 then Inl (JErr (expecting_delimiter 58) i2)
                  else
                    (case skip_ws (tl r2) (i2 + 1) of
                       (r3, i3) \<Rightarrow> Inr (key, r3, i3)))))"

text \<open>
  After a member or an element: the closing character ends the container, a
  comma continues it, anything else is an error.
\<close>

definition after_value :: "pystr \<Rightarrow> nat \<Rightarrow> nat \<Rightarrow> jerr + (bool \<times> pystr \<times> nat)" where
  "after_value s idx close =
     (case skip_ws s idx of
        (r, i) \<Rightarrow>
          if r \<noteq> [] \<and> hd r = close then Inr (True, tl r, i + 1)
          else if r = [] \<or> hd r \<noteq> 44 then Inl (JErr (expecting_delimiter 44) i)
          else
            (case skip_ws (tl r) (i + 1) of
               (r', i') \<Rightarrow> Inr (False, r', i')))"

text \<open>
  The scanner proper. \<open>scan_once\<close> reads one JSON term; \<open>parse_object\<close> and
  \<open>parse_array\<close> are the loops over the members of an object and the elements of
  an array, entered at the first key and the first element. The first argument
  bounds the depth of the calls, as the interpreter's recursion limit does;
  \<open>json_loads\<close> starts with more than any document of its length can use.
\<close>

fun scan_once :: "nat \<Rightarrow> pystr \<Rightarrow> nat \<Rightarrow> jerr + (pyval \<times> pystr \<times> nat)"
  and parse_object ::
    "nat \<Rightarrow> (pystr \<times> pyval) list \<Rightarrow> pystr \<Rightarrow> nat \<Rightarrow> jerr + (pyval \<times> pystr \<times> nat)"
  and parse_array :: "nat \<Rightarrow> pyval list \<Rightarrow> pystr \<Rightarrow> nat \<Rightarrow> jerr + (pyval \<times> pystr \<times> nat)"
where
  "scan_once 0 s idx = Inl JDepth"
| "scan_once (Suc n) [] idx = Inl (JErr (lit ''Expecting value'') idx)"
| "scan_once (Suc n) (c # cs) idx =
     (if c = 123 then
        (case after_open cs (idx + 1) 125 of
           (closed, r, i) \<Rightarrow> if closed then Inr (PDict [], r, i) else parse_object n [] r i)
      else if c = 91 then
        (case after_open cs (idx + 1) 93 of
           (closed, r, i) \<Rightarrow> if closed then Inr (PList [], r, i) else parse_array n [] r i)
      else scan_atom (c # cs) idx)"
| "parse_object 0 pairs s idx = Inl JDepth"
| "parse_object (Suc n) pairs s idx =
     (case read_key s idx of
        Inl e \<Rightarrow> Inl e
      | Inr (key, r, i) \<Rightarrow>
          (case scan_once n r i of
             Inl e \<Rightarrow> Inl e
           | Inr (val, r', i') \<Rightarrow>
               (case after_value r' i' 125 of
                  Inl e \<Rightarrow> Inl e
                | Inr (closed, r'', i'') \<Rightarrow>
                    if closed then Inr (PDict (dict_set pairs key val), r'', i'')
                    else parse_object n (dict_set pairs key val) r'' i'')))"
| "parse_array 0 vals s idx = Inl JDepth"
| "parse_array (Suc n) vals s idx =
     (case scan_once n s idx of
        Inl e \<Rightarrow> Inl e
      | Inr (val, r, i) \<Rightarrow>
          (case after_value r i 93 of
             Inl e \<Rightarrow> Inl e
           | Inr (closed, r', i') \<Rightarrow>
               if closed then Inr (PList (vals @ [val]), r', i')
               else parse_array n (vals @ [val]) r' i'))"

text \<open>The decimal numeral of a number, for the position in an error message.\<close>

fun show_nat :: "nat \<Rightarrow> pystr" where
  "show_nat n = (if n < 10 then [48 + n] else show_nat (n div 10) @ [48 + n mod 10])"

text \<open>
  \<^verbatim>\<open>str(e)\<close> of a \<open>JSONDecodeError\<close> with message \<open>msg\<close> at index \<open>pos\<close> of \<open>doc\<close>: the
  line is one more than the newlines before \<open>pos\<close>, the column the distance from
  the last of them (from the start of the document when there is none, plus one).
\<close>

definition errmsg :: "pystr \<Rightarrow> pystr \<Rightarrow> nat \<Rightarrow> pystr" where
  "errmsg msg doc pos =
     (let pre = take pos doc;
          lineno = length (filter (\<lambda>c. c = 10) pre) + 1;
          colno = length (takeWhile (\<lambda>c. c \<noteq> 10) (rev pre)) + 1
      in msg @ lit '': line '' @ show_nat lineno @ lit '' column '' @ show_nat colno @
         lit '' (char '' @ show_nat pos @ lit '')'')"

definition json_loads :: "pystr \<Rightarrow> exn + pyval" where
  "json_loads s =
     (if s \<noteq> [] \<and> hd s = 65279 then
        Inl (JSONDecodeError
               (errmsg (lit ''Unexpected UTF-8 BOM (decode using utf-8-sig)'') s 0))
      else
        (case skip_ws s 0 of
           (r, i) \<Rightarrow>
             (case scan_once (length s + 2) r i of
                Inl (JErr msg pos) \<Rightarrow> Inl (JSONDecodeError (errmsg msg s pos))
              | Inl JDepth \<Rightarrow>
                  Inl (OtherException (lit ''maximum recursion depth exceeded''))
              | Inr (v, r1, i1) \<Rightarrow>
                  (case skip_ws r1 i1 of
                     (r2, i2) \<Rightarrow>
                       if r2 \<noteq> [] then Inl (JSONDecodeError (errmsg (lit ''Extra data'') s i2))
                       else Inr v))))"

section \<open>The gateway and the fix service\<close>

text \<open>\<^verbatim>\<open>s.split(sep)\<close> for a non-empty \<open>sep\<close>.\<close>

fun split_on :: "pystr \<Rightarrow> pystr \<Rightarrow> pystr list" where
  "split_on [] sep = [[]]"
| "split_on (c # cs) sep =
     (if sep \<noteq> [] \<and> startswith (c # cs) sep
      then [] # split_on (drop (length sep) (c # cs)) sep
      else case split_on cs sep of
             l # ls \<Rightarrow> (c # l) # ls
           | [] \<Rightarrow> [[c]])"

text \<open>
  The operations that \<^verbatim>\<open>generate_review\<close> and \<^verbatim>\<open>generate_fix\<close> apply to values
  whose type is only known when the code runs. \<^verbatim>\<open>x in y\<close> is the substring test
  on a string, the key test on a dictionary and the element test on a list;
  \<^verbatim>\<open>split\<close> and \<^verbatim>\<open>strip\<close> are methods of strings only. The sum of two floats is
  kept as the two lexemes around a plus sign.
\<close>

definition py_in :: "pystr \<Rightarrow> pyval \<Rightarrow> exn + bool" where
  "py_in sub y =
     (case y of
        PStr s \<Rightarrow> Inr (contains s sub)
      | PDict kvs \<Rightarrow> Inr (sub \<in> set (map fst kvs))
      | PList xs \<Rightarrow> Inr (PStr sub \<in> set xs)
      | _ \<Rightarrow> Inl (TypeError
                 (lit ''argument of type '' @ [39] @ type_name y @ [39] @
                  lit '' is not iterable'')))"

definition no_attribute :: "pyval \<Rightarrow> string \<Rightarrow> exn" where
  "no_attribute x name =
     AttributeError
       ([39] @ type_name x @ [39] @ lit '' object has no attribute '' @ [39] @ lit name @
        [39])"

definition py_split :: "pyval \<Rightarrow> pystr \<Rightarrow> exn + pystr list" where
  "py_split x sep =
     (case x of PStr s \<Rightarrow> Inr (split_on s sep) | _ \<Rightarrow> Inl (no_attribute x ''split''))"

definition py_strip :: "pyval \<Rightarrow> exn + pystr" where
  "py_strip x = (case x of PStr s \<Rightarrow> Inr (strip s) | _ \<Rightarrow> Inl (no_attribute x ''strip''))"

definition is_number :: "pyval \<Rightarrow> bool" where
  "is_number x = (case x of PInt i \<Rightarrow> True | PBool b \<Rightarrow> True | PFloat f \<Rightarrow> True | _ \<Rightarrow> False)"

definition as_int :: "pyval \<Rightarrow> int option" where
  "as_int x =
     (case x of
        PInt i \<Rightarrow> Some i
      | PBool b \<Rightarrow> Some (if b then 1 else 0)
      | _ \<Rightarrow> None)"

fun show_int :: "int \<Rightarrow> pystr" where
  "show_int i = (if i < 0 then 45 # show_nat (nat (- i)) else show_nat (nat i))"

definition as_float :: "pyval \<Rightarrow> pystr" where
  "as_float x =
     (case x of
        PFloat f \<Rightarrow> f
      | PInt i \<Rightarrow> show_int i
      | PBool b \<Rightarrow> (if b then [49] else [48])
      | _ \<Rightarrow> [])"

definition py_add :: "pyval \<Rightarrow> pyval \<Rightarrow> exn + pyval" where
  "py_add x y =
     (case (as_int x, as_int y) of
        (Some a, Some b) \<Rightarrow> Inr (PInt (a + b))
      | _ \<Rightarrow>
          if is_number x \<and> is_number y then Inr (PFloat (as_float x @ [43] @ as_float y))
          else
            (case (x, y) of
               (PStr a, PStr b) \<Rightarrow> Inr (PStr (a @ b))
             | (PList a, PList b) \<Rightarrow> Inr (PList (a @ b))
             | _ \<Rightarrow>
                 Inl (TypeError
                        (lit ''unsupported operand type(s) for +: '' @ [39] @ type_name x @
                         [39] @ lit '' and '' @ [39] @ type_name y @ [39]))))"

subsection \<open>The gateway\<close>

text \<open>
  \<^verbatim>\<open>client.generate\<close> is the language model: \<open>client k prompt system\<close> is its answer
  to the \<open>k\<close>-th request, a reply object or an exception. \<^verbatim>\<open>generate_review\<close>
  copies three entries of the reply and their sum into a dictionary; whatever is
  raised on the way gives the dictionary with the keys \<^verbatim>\<open>response\<close> and
  \<^verbatim>\<open>error\<close>.
\<close>

type_synonym client = "nat \<Rightarrow> pystr \<Rightarrow> pystr \<Rightarrow> exn + pyval"

definition error_reply :: "exn \<Rightarrow> pyval" where
  "error_reply e =
     PDict [(lit ''response'', PStr (lit ''Error generating review: '' @ exn_str e)),
            (lit ''error'', PBool True)]"

definition generate_review :: "client \<Rightarrow> nat \<Rightarrow> pystr \<Rightarrow> pystr option \<Rightarrow> pyval \<times> nat" where
  "generate_review cl k prompt system_prompt =
     (let system = (case system_prompt of None \<Rightarrow> [] | Some s \<Rightarrow> s);
          result =
            bind (cl k prompt system) (\<lambda>response.
            bind (py_get response (lit ''response'') (PStr [])) (\<lambda>text.
            bind (py_get response (lit ''eval_count'') (PInt 0)) (\<lambda>eval_count.
            bind (py_get response (lit ''prompt_eval_count'') (PInt 0)) (\<lambda>prompt_eval_count.
            bind (py_add eval_count prompt_eval_count) (\<lambda>total.
            Inr (PDict [(lit ''response'', text),
                        (lit ''eval_count'', eval_count),
                        (lit ''prompt_eval_count'', prompt_eval_count),
                        (lit ''total_tokens'', total)]))))))
      in (case result of Inr d \<Rightarrow> d | Inl e \<Rightarrow> error_reply e, k + 1))"

subsection \<open>One fix\<close>

definition get_fix_prompt :: "pystr \<Rightarrow> pystr \<Rightarrow> pystr \<Rightarrow> pystr \<Rightarrow> pystr" where
  "get_fix_prompt lang snippet finding_description sugg =
     lit ''You are an expert '' @ lang @
     lit '' developer. Generate a corrected/improved version of this code snippet.'' @
     [10, 10] @ lit ''Problem: '' @ finding_description @
     [10] @ lit ''Suggestion: '' @ sugg @
     [10, 10] @ lit ''Original code:'' @
     [10] @ lit ''```'' @ lang @
     [10] @ snippet @
     [10] @ lit ''```'' @
     [10, 10] @ lit ''Provide ONLY the corrected code in a code block, no explanation.''"

text \<open>
  The extraction of the code from what \<^verbatim>\<open>generate_review\<close> returned, the variable
  \<^verbatim>\<open>response\<close> of the source: the test for a fence, the split at the fences
  with the language name removed from the first part after a fence, and else the
  stripped response.
\<close>

definition extract_code :: "pystr \<Rightarrow> pyval \<Rightarrow> exn + pystr option" where
  "extract_code lang response =
     bind (py_in (lit ''```'') response) (\<lambda>fenced.
     bind (if fenced then py_split response (lit ''```'') else Inr []) (\<lambda>parts.
     if fenced \<and> length parts \<ge> 2 then
       (let code = strip (parts ! 1);
            code = (if startswith code lang then strip (slice_from code (int (length lang)))
                    else code)
        in Inr (Some code))
     else bind (py_strip response) (\<lambda>code. Inr (Some code))))"

text \<open>
  The \<^verbatim>\<open>try\<close> block of \<^verbatim>\<open>generate_fix\<close>. The call passes the system prompt first
  and the prompt second, to a method that takes them in the other order; the
  extraction is applied to what the method returns.
\<close>

definition fix_body ::
  "client \<Rightarrow> nat \<Rightarrow> pystr \<Rightarrow> pystr \<Rightarrow> Finding \<Rightarrow> (exn + pystr option) \<times> nat" where
  "fix_body cl k lang snippet finding =
     (let prompt = get_fix_prompt lang snippet (description finding) (suggestion finding);
          system_prompt = lit ''You are an expert '' @ lang @
                          lit '' developer. Generate corrected code.'';
          (response, k') = generate_review cl k system_prompt (Some prompt)
      in (extract_code lang response, k'))"

text \<open>\<^verbatim>\<open>generate_fix\<close>: nothing is asked for an empty snippet, and the handler of the
  block returns \<^verbatim>\<open>None\<close>.\<close>

definition generate_fix ::
  "client \<Rightarrow> nat \<Rightarrow> pystr \<Rightarrow> pystr \<Rightarrow> Finding \<Rightarrow> (exn + pystr option) \<times> nat" where
  "generate_fix cl k lang snippet finding =
     (if snippet = [] then (Inr None, k)
      else
        (case fix_body cl k lang snippet finding of
           (Inr code, k') \<Rightarrow> (Inr code, k')
         | (Inl e, k') \<Rightarrow> (Inr None, k')))"

subsection \<open>Fixes for a batch\<close>

text \<open>
  The findings are objects that the loop changes in place, and a list may hold
  the same object twice, so the model has a store from addresses to findings and
  the list holds addresses. The loop assigns \<^verbatim>\<open>fix_code\<close> of each finding whose
  line number is set and lies in the code.
\<close>

type_synonym store = "nat \<Rightarrow> Finding"

definition snippet_around :: "pystr list \<Rightarrow> int \<Rightarrow> pystr" where
  "snippet_around lines l =
     (let start_line = max 0 (l - 2);
          end_line = min (int (length lines)) (l + 2)
      in join_lines (slice lines start_line end_line))"

fun fixes_loop ::
  "client \<Rightarrow> pystr list \<Rightarrow> pystr \<Rightarrow> nat list \<Rightarrow> store \<Rightarrow> nat \<Rightarrow> (exn + unit) \<times> store \<times> nat" where
  "fixes_loop cl lines lang [] st k = (Inr (), st, k)"
| "fixes_loop cl lines lang (a # as) st k =
     (case line_number (st a) of
        None \<Rightarrow> fixes_loop cl lines lang as st k
      | Some l \<Rightarrow>
          if l \<noteq> 0 \<and> 1 \<le> l \<and> l \<le> int (length lines) then
            (case generate_fix cl k lang (snippet_around lines l) (st a) of
               (Inl e, k') \<Rightarrow> (Inl e, st, k')
             | (Inr fix, k') \<Rightarrow>
                 fixes_loop cl lines lang as (st(a := (st a)\<lparr>fix_code := fix\<rparr>)) k')
          else fixes_loop cl lines lang as st k)"

definition generate_fixes_for_findings ::
  "client \<Rightarrow> pystr \<Rightarrow> pystr \<Rightarrow> nat list \<Rightarrow> store \<Rightarrow> nat \<Rightarrow>
   (exn + nat list) \<times> store \<times> nat" where
  "generate_fixes_for_findings cl code_content lang fs st k =
     (case fixes_loop cl (split_lines code_content) lang fs st k of
        (Inr u, st', k') \<Rightarrow> (Inr fs, st', k')
      | (Inl e, st', k') \<Rightarrow> (Inl e, st', k'))"

section \<open>Notions used in the statements\<close>


text \<open>
  A validation without conversions, for the concrete runs: only a value of the
  field's type is accepted.
\<close>

definition no_coercions :: coercions where
  "no_coercions = \<lparr>to_str = (\<lambda>v. None), to_int = (\<lambda>v. None), to_dict = (\<lambda>v. None)\<rparr>"

text \<open>
  A fenced block around a text \<open>J\<close>: the opening fence with its tag (\<^verbatim>\<open>json\<close>, or
  none), the text between blanks \<open>a\<close> and \<open>b\<close> (the line breaks, usually), and the
  closing fence.
\<close>

definition fenced :: "pystr \<Rightarrow> pystr \<Rightarrow> pystr \<Rightarrow> pystr \<Rightarrow> pystr" where
  "fenced tag a J b = lit ''```'' @ tag @ a @ J @ b @ lit ''```''"

definition blank :: "pystr \<Rightarrow> bool" where
  "blank a = list_all isspace a"

text \<open>
  The shape of the text of a JSON object: between blanks, it begins with an
  opening brace and ends with a closing one.
\<close>

definition object_text :: "pystr \<Rightarrow> bool" where
  "object_text J = (let t = strip J in t \<noteq> [] \<and> hd t = 123 \<and> last t = 125)"

section \<open>What every run of the parser returns\<close>

lemma bind_Inr_iff: "bind m f = Inr y \<longleftrightarrow> (\<exists>x. m = Inr x \<and> f x = Inr y)"
  by (cases m) (simp_all add: bind_def)

lemma ReviewResponse_init_PStr:
  "ReviewResponse_init C path lang fs (PStr m) n =
     Inr \<lparr>file_path = path, language = lang, findings = fs, summary = m,
          total_issues = n, token_usage = None\<rparr>"
  by (simp add: ReviewResponse_init_def validate_str_def bind_def)

lemma ReviewResponse_init_fields:
  assumes "ReviewResponse_init C path lang fs v n = Inr r"
  shows "file_path r = path" and "language r = lang" and "findings r = fs"
    and "total_issues r = n" and "token_usage r = None"
  using assms by (auto simp: ReviewResponse_init_def bind_Inr_iff)

lemma build_response_fields:
  assumes "build_response C data path lang = Inr r"
  shows "file_path r = path" and "language r = lang"
    and "total_issues r = int (length (findings r))"
proof -
  from assms obtain fs v where
    init: "ReviewResponse_init C path lang fs v (int (length fs)) = Inr r"
    by (auto simp: build_response_def bind_Inr_iff Let_def)
  show "file_path r = path" and "language r = lang"
    using ReviewResponse_init_fields(1,2) [OF init] by simp_all
  show "total_issues r = int (length (findings r))"
    using ReviewResponse_init_fields(3,4) [OF init] by simp
qed

text \<open>
  A run of the \<^verbatim>\<open>try\<close> block that returns has returned at one of its four
  \<^verbatim>\<open>return\<close> statements: three build a response without findings, the fourth is
  the response built from the parsed data.
\<close>

lemma parse_body_cases:
  assumes "parse_body loads C response path lang = Inr r"
  shows "(\<exists>m. m \<noteq> [] \<and> r = \<lparr>file_path = path, language = lang, findings = [], summary = m,
                total_issues = 0, token_usage = None\<rparr>) \<or>
     (\<exists>data. build_response C data path lang = Inr r \<and>
        (loads (json_str (clean_response response)
                  (nat (find (clean_response response) (lit ''{'')))) = Inr data \<or>
         loads (aggressive_fixes (json_str (clean_response response)
                  (nat (find (clean_response response) (lit ''{''))))) = Inr data))"
  using assms
  by (auto simp: parse_body_def Let_def bind_Inr_iff ReviewResponse_init_PStr lit_def
      split: if_splits sum.splits exn.splits)

lemma parse_body_fields:
  assumes "parse_body loads C response path lang = Inr r"
  shows "file_path r = path" and "language r = lang"
    and "total_issues r = int (length (findings r))"
  using parse_body_cases [OF assms] by (auto dest: build_response_fields)

lemma handler_response:
  "parse_body loads C response path lang = Inl e \<Longrightarrow>
   parse_llm_response loads C response path lang =
     Inr \<lparr>file_path = path, language = lang, findings = [],
          summary = lit ''Error parsing review: '' @ exn_str e,
          total_issues = 0, token_usage = None\<rparr>"
  by (simp add: parse_llm_response_def ReviewResponse_init_PStr)

lemma body_response:
  "parse_body loads C response path lang = Inr r \<Longrightarrow>
   parse_llm_response loads C response path lang = Inr r"
  by (simp add: parse_llm_response_def)


text \<open>
  C2. The response of every run has \<open>total_issues\<close> equal to the number of its
  findings, whatever value \<^verbatim>\<open>json.loads\<close> returned (and so whatever
  \<^verbatim>\<open>total_issues\<close> the JSON had).
\<close>

theorem total_issues_is_length:
  "\<exists>r. parse_llm_response loads C response path lang = Inr r \<and>
       total_issues r = int (length (findings r))"
proof (cases "parse_body loads C response path lang")
  case (Inl e)
  then show ?thesis
    by (simp add: handler_response)
next
  case (Inr r)
  then show ?thesis
    by (simp add: body_response parse_body_fields)
qed

section \<open>Running the decoder and the parser on concrete inputs\<close>

text \<open>
  The definitions that a run of the decoder unfolds. The case expressions are
  simplified under weak congruence rules, so that a branch is entered only once
  its scrutinee has been computed.
\<close>

lemmas decoder_defs =
  json_loads_def lit_def skip_ws_def is_ws_def after_open_def read_key_def after_value_def
  scan_atom_def match_number_def number_value_def int_of_digits_def is_digit_def
  errmsg_def expecting_delimiter_def

lemmas cleaning_defs =
  clean_response_def contains_def find_def find_from_def json_str_def end_idx_def slice_def
  slice_from_def clip_def strip_def rstrip_def isspace_def lit_def

section \<open>A truncated response\<close>

lemma json_loads_empty:
  "json_loads [] =
     Inl (JSONDecodeError (lit ''Expecting value: line 1 column 1 (char 0)''))"
  by (simp add: decoder_defs)

lemma aggressive_fixes_empty: "aggressive_fixes [] = []"
  by (simp add: aggressive_fixes_def fix_quotes_def fix_line_def contains_def lit_def)

lemma unmatched_candidate_empty:
  "match_brace (drop i s) i 0 = None \<Longrightarrow> json_str s i = []"
  by (simp add: json_str_def end_idx_def slice_def)

text \<open>
  The two ways through the \<^verbatim>\<open>try\<close> block that the runs below take: both calls of
  \<^verbatim>\<open>json.loads\<close> fail, or one succeeds and the response is built from the data.
\<close>

lemma parse_failure_response:
  assumes "clean_response response = t"
    and "find t (lit ''{'') = int i"
    and "json_str t i = js"
    and "loads js = Inl (JSONDecodeError m)"
    and "aggressive_fixes js = js'"
    and "loads js' = Inl (JSONDecodeError m2)"
  shows "parse_llm_response loads C response path lang =
     Inr \<lparr>file_path = path, language = lang, findings = [],
          summary = lit ''JSON parsing failed: '' @ m2 @ lit ''. Response may be truncated.'',
          total_issues = 0, token_usage = None\<rparr>"
  using assms
  by (simp add: parse_llm_response_def parse_body_def Let_def ReviewResponse_init_PStr)

lemma parse_success_response:
  assumes "clean_response response = t"
    and "find t (lit ''{'') = int i"
    and "json_str t i = js"
    and "loads js = Inr data"
    and "report_count data = Inr n"
    and "build_response C data path lang = Inr r"
  shows "parse_llm_response loads C response path lang = Inr r"
  using assms
  by (simp add: parse_llm_response_def parse_body_def Let_def bind_def)

text \<open>
  C3. The response \<^verbatim>\<open>{"findings": [\<close> opens a brace and never closes it. The
  loop leaves \<open>end_idx\<close> at \<open>start_idx\<close>, so the candidate is the empty string and
  not the text from the brace to the end of the input; the summary reports the
  decoder's error for the empty string (character 0), where the decoder's error
  for the text from the brace on is at character 14.
\<close>

theorem truncated_response_candidate_is_empty:
  \<open>clean_response (lit ''{"findings": ['') = lit ''{"findings": ['' \<and>
   find (lit ''{"findings": ['') (lit ''{'') = 0 \<and>
   json_str (lit ''{"findings": ['') 0 = [] \<and>
   json_loads (lit ''{"findings": ['') =
     Inl (JSONDecodeError (lit ''Expecting value: line 1 column 15 (char 14)'')) \<and>
   parse_llm_response json_loads C (lit ''{"findings": ['') path lang =
     Inr \<lparr>file_path = path, language = lang, findings = [],
          summary = lit ''JSON parsing failed: '' @
                    lit ''Expecting value: line 1 column 1 (char 0)'' @
                    lit ''. Response may be truncated.'',
          total_issues = 0, token_usage = None\<rparr>\<close>
proof -
  have clean: \<open>clean_response (lit ''{"findings": ['') = lit ''{"findings": [''\<close>
    by (simp add: cleaning_defs)
  have start: \<open>find (lit ''{"findings": ['') (lit ''{'') = int 0\<close>
    by (simp add: cleaning_defs)
  have cand: \<open>json_str (lit ''{"findings": ['') 0 = []\<close>
    by (simp add: cleaning_defs)
  have strict: \<open>json_loads (lit ''{"findings": ['') =
      Inl (JSONDecodeError (lit ''Expecting value: line 1 column 15 (char 14)''))\<close>
    by (simp add: decoder_defs cong: sum.case_cong_weak prod.case_cong_weak
        option.case_cong_weak list.case_cong_weak)
  note run = parse_failure_response [where loads = json_loads and C = C and path = path
      and lang = lang, OF clean start cand json_loads_empty aggressive_fixes_empty
      json_loads_empty]
  from clean start cand strict run show ?thesis
    by simp
qed

section \<open>The repair pass on typographic quotes\<close>

lemma startswith_take: "startswith s p \<Longrightarrow> take (length p) s = p"
  by (induction s p rule: startswith.induct) simp_all

lemma replace_by_itself: "new = old \<Longrightarrow> replace s old new = s"
proof (induction s old new rule: replace.induct)
  case (1 old new)
  then show ?case by simp
next
  case (2 c cs old new)
  show ?case
  proof (cases "old \<noteq> [] \<and> startswith (c # cs) old")
    case True
    then have "old @ drop (length old) (c # cs) = c # cs"
      using startswith_take [of "c # cs" old] append_take_drop_id [of "length old" "c # cs"]
      by simp
    with True 2 show ?thesis by simp
  next
    case False
    with 2 show ?thesis by auto
  qed
qed

lemma replace_same: "replace s old old = s"
  by (simp add: replace_by_itself)

text \<open>Fix 1 changes no string: each of its four calls replaces a text by itself.\<close>

lemma fix_quotes_id: "fix_quotes s = s"
  by (simp add: fix_quotes_def replace_same)

lemmas response_defs =
  report_count_def build_response_def py_get_def py_len_def py_iter_def bind_def
  ReviewResponse_init_PStr lit_def

text \<open>
  C7. The object \<^verbatim>\<open>{"summary": "ok"}\<close> written with the typographic quotes U+201C
  and U+201D (8220 and 8221) in place of the four ASCII quotes. Fix 1 replaces
  the ASCII quote by itself and so changes no string; the repair pass returns
  this text as it was, the second parse fails like the first, and the response
  is the diagnostic one. The same object with ASCII quotes gives the summary
  \<^verbatim>\<open>ok\<close>.
\<close>

theorem typographic_quotes_are_not_repaired:
  \<open>fix_quotes s = s \<and>
   aggressive_fixes ([123, 8220] @ lit ''summary'' @ [8221, 58, 32, 8220] @ lit ''ok'' @
                     [8221, 125]) =
     [123, 8220] @ lit ''summary'' @ [8221, 58, 32, 8220] @ lit ''ok'' @ [8221, 125] \<and>
   parse_llm_response json_loads C
     ([123, 8220] @ lit ''summary'' @ [8221, 58, 32, 8220] @ lit ''ok'' @ [8221, 125])
     path lang =
     Inr \<lparr>file_path = path, language = lang, findings = [],
          summary = lit ''JSON parsing failed: '' @
                    lit ''Expecting property name enclosed in double quotes: '' @
                    lit ''line 1 column 2 (char 1)'' @
                    lit ''. Response may be truncated.'',
          total_issues = 0, token_usage = None\<rparr> \<and>
   parse_llm_response json_loads C (lit ''{"summary": "ok"}'') path lang =
     Inr \<lparr>file_path = path, language = lang, findings = [],
          summary = lit ''ok'', total_issues = 0, token_usage = None\<rparr>\<close>
proof -
  let ?t = \<open>[123, 8220] @ lit ''summary'' @ [8221, 58, 32, 8220] @ lit ''ok'' @ [8221, 125]\<close>
  let ?m = "lit ''Expecting property name enclosed in double quotes: '' @
            lit ''line 1 column 2 (char 1)''"
  have clean: "clean_response ?t = ?t"
    by (simp add: cleaning_defs)
  have start: "find ?t (lit ''{'') = int 0"
    by (simp add: cleaning_defs)
  have cand: "json_str ?t 0 = ?t"
    by (simp add: cleaning_defs)
  have repaired: "aggressive_fixes ?t = ?t"
    by (simp add: aggressive_fixes_def fix_quotes_id fix_line_def contains_def lit_def)
  have strict: "json_loads ?t = Inl (JSONDecodeError ?m)"
    by (simp add: decoder_defs cong: sum.case_cong_weak prod.case_cong_weak
        option.case_cong_weak list.case_cong_weak)
  note curly = parse_failure_response [where loads = json_loads and C = C and path = path
      and lang = lang, OF clean start cand strict repaired strict]
  let ?u = \<open>lit ''{"summary": "ok"}''\<close>
  let ?d = "PDict [(lit ''summary'', PStr (lit ''ok''))]"
  let ?r = "\<lparr>file_path = path, language = lang, findings = [],
             summary = lit ''ok'', total_issues = 0, token_usage = None\<rparr>"
  have clean': "clean_response ?u = ?u"
    by (simp add: cleaning_defs)
  have start': "find ?u (lit ''{'') = int 0"
    by (simp add: cleaning_defs)
  have cand': "json_str ?u 0 = ?u"
    by (simp add: cleaning_defs)
  have strict': "json_loads ?u = Inr ?d"
    by (simp add: decoder_defs cong: sum.case_cong_weak prod.case_cong_weak
        option.case_cong_weak list.case_cong_weak)
  have counted: "report_count ?d = Inr 0"
    by (simp add: response_defs)
  have built: "build_response C ?d path lang = Inr ?r"
    by (simp add: response_defs)
  note straight = parse_success_response [where loads = json_loads, OF clean' start' cand'
      strict' counted built]
  from fix_quotes_id [of s] repaired curly straight show ?thesis
    by (simp only: append_assoc simp_thms)
qed

section \<open>The summary\<close>







section \<open>The loop over the raw findings\<close>




lemma SeverityLevel_call_value: "SeverityLevel_call (PStr (severity_value v)) = Inr v"
  by (cases v) (simp_all add: SeverityLevel_call_def lit_def)




lemmas finding_defs =
  make_finding_def Finding_init_def py_get_def bind_def SeverityLevel_call_def
  validate_str_def validate_int_def validate_dict_def validate_str_list_def optional_def
  invalid_def lit_def


section \<open>A record without a severity\<close>

lemma Finding_init_severity:
  "Finding_init C ln sev cat ttl descr sugg snip fix doc reason exs bp eff dims =
     (case Finding_init C ln INFO cat ttl descr sugg snip fix doc reason exs bp eff dims of
        Inl e \<Rightarrow> Inl e
      | Inr g \<Rightarrow> Inr (g\<lparr>severity := sev\<rparr>))"
  by (simp add: Finding_init_def bind_def split: sum.splits)

lemma make_finding_with_severity:
  assumes "map_of kvs (lit ''severity'') = None"
  shows "make_finding C (PDict ((lit ''severity'', PStr (severity_value v)) # kvs)) =
     (case make_finding C (PDict kvs) of
        Inl e \<Rightarrow> Inl e
      | Inr g \<Rightarrow> Inr (g\<lparr>severity := v\<rparr>))"
proof -
  have other: "\<And>key. key \<noteq> lit ''severity'' \<Longrightarrow>
      map_of ((lit ''severity'', PStr (severity_value v)) # kvs) key = map_of kvs key"
    by simp
  have same: "map_of ((lit ''severity'', PStr (severity_value v)) # kvs) (lit ''severity'') =
      Some (PStr (severity_value v))"
    by simp
  have keys: "lit ''line_number'' \<noteq> lit ''severity''" "lit ''category'' \<noteq> lit ''severity''"
    "lit ''title'' \<noteq> lit ''severity''" "lit ''description'' \<noteq> lit ''severity''"
    "lit ''suggestion'' \<noteq> lit ''severity''" "lit ''code_snippet'' \<noteq> lit ''severity''"
    "lit ''fix_code'' \<noteq> lit ''severity''" "lit ''documentation_link'' \<noteq> lit ''severity''"
    "lit ''severity_reason'' \<noteq> lit ''severity''" "lit ''examples'' \<noteq> lit ''severity''"
    "lit ''best_practice'' \<noteq> lit ''severity''" "lit ''effort_minutes'' \<noteq> lit ''severity''"
    "lit ''dimensions'' \<noteq> lit ''severity''"
    by (simp_all add: lit_def)
  have info: "SeverityLevel_call (PStr (lit ''info'')) = Inr INFO"
    using SeverityLevel_call_value [of INFO] by simp
  have left: "make_finding C (PDict ((lit ''severity'', PStr (severity_value v)) # kvs)) =
      Finding_init C
        (case map_of kvs (lit ''line_number'') of None \<Rightarrow> PNone | Some x \<Rightarrow> x) v
        (case map_of kvs (lit ''category'') of None \<Rightarrow> PStr (lit ''other'') | Some x \<Rightarrow> x)
        (case map_of kvs (lit ''title'') of None \<Rightarrow> PStr [] | Some x \<Rightarrow> x)
        (case map_of kvs (lit ''description'') of None \<Rightarrow> PStr [] | Some x \<Rightarrow> x)
        (case map_of kvs (lit ''suggestion'') of None \<Rightarrow> PStr [] | Some x \<Rightarrow> x)
        (case map_of kvs (lit ''code_snippet'') of None \<Rightarrow> PNone | Some x \<Rightarrow> x)
        (case map_of kvs (lit ''fix_code'') of None \<Rightarrow> PNone | Some x \<Rightarrow> x)
        (case map_of kvs (lit ''documentation_link'') of None \<Rightarrow> PNone | Some x \<Rightarrow> x)
        (case map_of kvs (lit ''severity_reason'') of None \<Rightarrow> PNone | Some x \<Rightarrow> x)
        (case map_of kvs (lit ''examples'') of None \<Rightarrow> PNone | Some x \<Rightarrow> x)
        (case map_of kvs (lit ''best_practice'') of None \<Rightarrow> PNone | Some x \<Rightarrow> x)
        (case map_of kvs (lit ''effort_minutes'') of None \<Rightarrow> PNone | Some x \<Rightarrow> x)
        (case map_of kvs (lit ''dimensions'') of None \<Rightarrow> PNone | Some x \<Rightarrow> x)"
    unfolding make_finding_def py_get_def
    by (simp add: bind_def other same keys SeverityLevel_call_value del: map_of.simps)
  have right: "make_finding C (PDict kvs) =
      Finding_init C
        (case map_of kvs (lit ''line_number'') of None \<Rightarrow> PNone | Some x \<Rightarrow> x) INFO
        (case map_of kvs (lit ''category'') of None \<Rightarrow> PStr (lit ''other'') | Some x \<Rightarrow> x)
        (case map_of kvs (lit ''title'') of None \<Rightarrow> PStr [] | Some x \<Rightarrow> x)
        (case map_of kvs (lit ''description'') of None \<Rightarrow> PStr [] | Some x \<Rightarrow> x)
        (case map_of kvs (lit ''suggestion'') of None \<Rightarrow> PStr [] | Some x \<Rightarrow> x)
        (case map_of kvs (lit ''code_snippet'') of None \<Rightarrow> PNone | Some x \<Rightarrow> x)
        (case map_of kvs (lit ''fix_code'') of None \<Rightarrow> PNone | Some x \<Rightarrow> x)
        (case map_of kvs (lit ''documentation_link'') of None \<Rightarrow> PNone | Some x \<Rightarrow> x)
        (case map_of kvs (lit ''severity_reason'') of None \<Rightarrow> PNone | Some x \<Rightarrow> x)
        (case map_of kvs (lit ''examples'') of None \<Rightarrow> PNone | Some x \<Rightarrow> x)
        (case map_of kvs (lit ''best_practice'') of None \<Rightarrow> PNone | Some x \<Rightarrow> x)
        (case map_of kvs (lit ''effort_minutes'') of None \<Rightarrow> PNone | Some x \<Rightarrow> x)
        (case map_of kvs (lit ''dimensions'') of None \<Rightarrow> PNone | Some x \<Rightarrow> x)"
    unfolding make_finding_def py_get_def
    by (simp add: bind_def assms info)
  show ?thesis
    unfolding left right by (rule Finding_init_severity)
qed

lemma Finding_init_severity_field:
  "Finding_init C ln sev cat ttl descr sugg snip fix doc reason exs bp eff dims = Inr g \<Longrightarrow>
   severity g = sev"
  by (auto simp: Finding_init_def bind_Inr_iff)

lemma make_finding_absent_info:
  assumes "map_of kvs (lit ''severity'') = None" and "make_finding C (PDict kvs) = Inr g"
  shows "severity g = INFO"
proof -
  have info: "SeverityLevel_call (PStr (lit ''info'')) = Inr INFO"
    using SeverityLevel_call_value [of INFO] by simp
  from assms have "\<exists>ln cat ttl descr sugg snip fix doc reason exs bp eff dims.
      Finding_init C ln INFO cat ttl descr sugg snip fix doc reason exs bp eff dims = Inr g"
    unfolding make_finding_def py_get_def
    by (simp add: bind_def info) blast
  then show ?thesis
    by (auto dest: Finding_init_severity_field)
qed

text \<open>
  C10, the claim as stated fails: the record \<^verbatim>\<open>{"title": null}\<close> has no severity
  entry, and it is dropped, because the title of a finding must be a string.
\<close>

theorem record_without_severity_counterexample:
  \<open>parse_llm_response json_loads no_coercions (lit ''{"findings": [{"title": null}]}'')
     (lit ''a.py'') (lit ''python'') =
     Inr \<lparr>file_path = lit ''a.py'', language = lit ''python'', findings = [],
          summary = lit ''Review complete'', total_issues = 0, token_usage = None\<rparr>\<close>
proof -
  let ?u = \<open>lit ''{"findings": [{"title": null}]}''\<close>
  let ?d = "PDict [(lit ''findings'', PList [PDict [(lit ''title'', PNone)]])]"
  have clean: "clean_response ?u = ?u"
    by (simp add: cleaning_defs)
  have start: "find ?u (lit ''{'') = int 0"
    by (simp add: cleaning_defs)
  have cand: "json_str ?u 0 = ?u"
    by (simp add: cleaning_defs)
  have strict: "json_loads ?u = Inr ?d"
    by (simp add: decoder_defs cong: sum.case_cong_weak prod.case_cong_weak
        option.case_cong_weak list.case_cong_weak)
  have counted: "report_count ?d = Inr 1"
    by (simp add: response_defs)
  have dropped: "make_finding no_coercions (PDict [(lit ''title'', PNone)]) =
      Inl (ValidationError (lit ''validation error for Finding''))"
    by (simp add: finding_defs no_coercions_def)
  have built: "build_response no_coercions ?d (lit ''a.py'') (lit ''python'') =
     Inr \<lparr>file_path = lit ''a.py'', language = lit ''python'', findings = [],
          summary = lit ''Review complete'', total_issues = 0, token_usage = None\<rparr>"
    unfolding build_response_def
    by (simp add: py_get_def py_iter_def bind_def dropped ReviewResponse_init_PStr)
      (simp add: lit_def)
  show ?thesis
    by (rule parse_success_response [where loads = json_loads, OF clean start cand strict
          counted built])
qed

text \<open>
  C10, amended. Let a raw record have no severity entry, and let its other
  fields pass validation, that is, let the record be kept once an entry with
  the value of some member \<open>v\<close> of \<open>SeverityLevel\<close> is added. Then the record is
  kept as it is: the loop appends the same finding with the severity \<open>INFO\<close>.
\<close>

theorem absent_severity_defaults_to_info:
  assumes "map_of kvs (lit ''severity'') = None"
    and "make_finding C (PDict ((lit ''severity'', PStr (severity_value v)) # kvs)) = Inr g"
  shows "make_finding C (PDict kvs) = Inr (g\<lparr>severity := INFO\<rparr>) \<and>
         collect_findings C (PDict kvs # fs) = g\<lparr>severity := INFO\<rparr> # collect_findings C fs"
proof -
  from make_finding_with_severity [OF assms(1), of C v] assms(2)
  obtain g0 where kept: "make_finding C (PDict kvs) = Inr g0" and g: "g = g0\<lparr>severity := v\<rparr>"
    by (cases "make_finding C (PDict kvs)") auto
  from make_finding_absent_info [OF assms(1) kept] have "severity g0 = INFO" .
  with g have "g\<lparr>severity := INFO\<rparr> = g0"
    by simp
  with kept show ?thesis
    by simp
qed

theorem absent_severity_defaults_to_info_witness:
  "map_of [(lit ''title'', PStr (lit ''Unused import'')), (lit ''line_number'', PInt 7)]
     (lit ''severity'') = None \<and>
   make_finding no_coercions
     (PDict [(lit ''severity'', PStr (severity_value HIGH)),
             (lit ''title'', PStr (lit ''Unused import'')), (lit ''line_number'', PInt 7)]) =
     Inr \<lparr>line_number = Some 7, severity = HIGH, category = lit ''other'',
          title = lit ''Unused import'', description = [], suggestion = [],
          code_snippet = None, fix_code = None, documentation_link = None,
          severity_reason = None, examples = None, best_practice = None,
          effort_minutes = None, dimensions = None\<rparr> \<and>
   make_finding no_coercions
     (PDict [(lit ''title'', PStr (lit ''Unused import'')), (lit ''line_number'', PInt 7)]) =
     Inr \<lparr>line_number = Some 7, severity = INFO, category = lit ''other'',
          title = lit ''Unused import'', description = [], suggestion = [],
          code_snippet = None, fix_code = None, documentation_link = None,
          severity_reason = None, examples = None, best_practice = None,
          effort_minutes = None, dimensions = None\<rparr>"
proof -
  let ?kvs = "[(lit ''title'', PStr (lit ''Unused import'')), (lit ''line_number'', PInt 7)]"
  let ?g = "\<lparr>line_number = Some 7, severity = HIGH, category = lit ''other'',
          title = lit ''Unused import'', description = [], suggestion = [],
          code_snippet = None, fix_code = None, documentation_link = None,
          severity_reason = None, examples = None, best_practice = None,
          effort_minutes = None, dimensions = None\<rparr>"
  have absent: "map_of ?kvs (lit ''severity'') = None"
    by (simp add: lit_def)
  have with_high: "make_finding no_coercions
      (PDict ((lit ''severity'', PStr (severity_value HIGH)) # ?kvs)) = Inr ?g"
    by (simp add: finding_defs no_coercions_def)
  from absent_severity_defaults_to_info [OF absent with_high, of "[]"] absent with_high
  show ?thesis
    by simp
qed

section \<open>The fix service\<close>

text \<open>
  What \<^verbatim>\<open>generate_review\<close> returns is a dictionary in every case, with the keys of
  one of its two \<^verbatim>\<open>return\<close> statements.
\<close>

lemma generate_review_dict:
  "\<exists>kvs. fst (generate_review cl k prompt system_prompt) = PDict kvs \<and>
         set (map fst kvs) \<subseteq>
           {lit ''response'', lit ''eval_count'', lit ''prompt_eval_count'',
            lit ''total_tokens'', lit ''error''}"
proof -
  let ?result =
    "bind (cl k prompt (case system_prompt of None \<Rightarrow> [] | Some s \<Rightarrow> s)) (\<lambda>response.
     bind (py_get response (lit ''response'') (PStr [])) (\<lambda>text.
     bind (py_get response (lit ''eval_count'') (PInt 0)) (\<lambda>eval_count.
     bind (py_get response (lit ''prompt_eval_count'') (PInt 0)) (\<lambda>prompt_eval_count.
     bind (py_add eval_count prompt_eval_count) (\<lambda>total.
     Inr (PDict [(lit ''response'', text),
                 (lit ''eval_count'', eval_count),
                 (lit ''prompt_eval_count'', prompt_eval_count),
                 (lit ''total_tokens'', total)]))))))"
  have result: "fst (generate_review cl k prompt system_prompt) =
      (case ?result of Inr d \<Rightarrow> d | Inl e \<Rightarrow> error_reply e)"
    by (simp add: generate_review_def Let_def)
  show ?thesis
  proof (cases ?result)
    case (Inl e)
    with result show ?thesis
      by (simp add: error_reply_def)
  next
    case (Inr d)
    then obtain a b c t where
      "d = PDict [(lit ''response'', a), (lit ''eval_count'', b),
                  (lit ''prompt_eval_count'', c), (lit ''total_tokens'', t)]"
      by (auto simp: bind_Inr_iff)
    with result Inr show ?thesis
      by simp
  qed
qed

text \<open>
  On such a dictionary the test for a fence is a test on the keys and fails, and
  \<^verbatim>\<open>strip\<close> is not a method of a dictionary.
\<close>

lemma extract_code_dict:
  assumes "set (map fst kvs) \<subseteq>
           {lit ''response'', lit ''eval_count'', lit ''prompt_eval_count'',
            lit ''total_tokens'', lit ''error''}"
  shows "extract_code lang (PDict kvs) = Inl (no_attribute (PDict kvs) ''strip'')"
proof -
  have "lit ''```'' \<notin> {lit ''response'', lit ''eval_count'', lit ''prompt_eval_count'',
            lit ''total_tokens'', lit ''error''}"
    by (simp add: lit_def)
  with assms have "lit ''```'' \<notin> set (map fst kvs)"
    by blast
  then show ?thesis
    by (simp add: extract_code_def py_in_def py_strip_def bind_def)
qed

lemma generate_fix_result: "fst (generate_fix cl k lang snippet finding) = Inr None"
proof (cases "snippet = []")
  case True
  then show ?thesis
    by (simp add: generate_fix_def)
next
  case False
  let ?prompt = "get_fix_prompt lang snippet (description finding) (suggestion finding)"
  let ?system = "lit ''You are an expert '' @ lang @ lit '' developer. Generate corrected code.''"
  obtain kvs where
    dict: "fst (generate_review cl k ?system (Some ?prompt)) = PDict kvs"
    and keys: "set (map fst kvs) \<subseteq>
           {lit ''response'', lit ''eval_count'', lit ''prompt_eval_count'',
            lit ''total_tokens'', lit ''error''}"
    using generate_review_dict by blast
  have "fst (fix_body cl k lang snippet finding) = Inl (no_attribute (PDict kvs) ''strip'')"
    using dict extract_code_dict [OF keys]
    by (simp add: fix_body_def Let_def split_beta)
  then obtain k' where
    "fix_body cl k lang snippet finding = (Inl (no_attribute (PDict kvs) ''strip''), k')"
    by (cases "fix_body cl k lang snippet finding") auto
  with False show ?thesis
    by (simp add: generate_fix_def)
qed

text \<open>
  C5. \<^verbatim>\<open>generate_fix\<close> returns \<^verbatim>\<open>None\<close> on every input and for every behaviour of
  the language model, and raises nothing. The extraction would return the code
  \<^verbatim>\<open>x = 2\<close> from the reply text with a fenced \<^verbatim>\<open>python\<close> block, but it is applied
  to the dictionary that \<^verbatim>\<open>generate_review\<close> returns and not to the text under its
  \<^verbatim>\<open>response\<close> key: there it raises, and the handler returns \<^verbatim>\<open>None\<close>.
\<close>

theorem generate_fix_always_returns_None:
  "fst (generate_fix cl k lang snippet finding) = Inr None \<and>
   extract_code (lit ''python'')
     (PStr (lit ''```python'' @ [10] @ lit ''x = 2'' @ [10] @ lit ''```'')) =
     Inr (Some (lit ''x = 2'')) \<and>
   extract_code (lit ''python'')
     (PDict [(lit ''response'',
              PStr (lit ''```python'' @ [10] @ lit ''x = 2'' @ [10] @ lit ''```'')),
             (lit ''eval_count'', PInt 9), (lit ''prompt_eval_count'', PInt 40),
             (lit ''total_tokens'', PInt 49)]) =
     Inl (AttributeError
            ([39] @ lit ''dict'' @ [39] @ lit '' object has no attribute '' @ [39] @
             lit ''strip'' @ [39]))"
proof -
  have from_text: "extract_code (lit ''python'')
     (PStr (lit ''```python'' @ [10] @ lit ''x = 2'' @ [10] @ lit ''```'')) =
     Inr (Some (lit ''x = 2''))"
    by (simp add: extract_code_def py_in_def py_split_def bind_def contains_def strip_def
        rstrip_def isspace_def slice_from_def clip_def lit_def
        cong: list.case_cong_weak)
  have from_dict: "extract_code (lit ''python'')
     (PDict [(lit ''response'',
              PStr (lit ''```python'' @ [10] @ lit ''x = 2'' @ [10] @ lit ''```'')),
             (lit ''eval_count'', PInt 9), (lit ''prompt_eval_count'', PInt 40),
             (lit ''total_tokens'', PInt 49)]) =
     Inl (AttributeError
            ([39] @ lit ''dict'' @ [39] @ lit '' object has no attribute '' @ [39] @
             lit ''strip'' @ [39]))"
    by (simp add: extract_code_def py_in_def py_strip_def bind_def no_attribute_def lit_def)
  from generate_fix_result [of cl k lang snippet finding] from_text from_dict show ?thesis
    by (simp only: simp_thms)
qed

section \<open>Fixes for a batch\<close>

lemma fixes_loop_returns: "fst (fixes_loop cl lines lang fs st k) = Inr ()"
proof (induction fs arbitrary: st k)
  case Nil
  then show ?case by simp
next
  case (Cons a fs)
  show ?case
  proof (cases "line_number (st a)")
    case None
    with Cons show ?thesis by simp
  next
    case (Some l)
    show ?thesis
    proof (cases "l \<noteq> 0 \<and> 1 \<le> l \<and> l \<le> int (length lines)")
      case False
      with Some Cons show ?thesis by auto
    next
      case True
      obtain k' where "generate_fix cl k lang (snippet_around lines l) (st a) = (Inr None, k')"
        using generate_fix_result [of cl k lang "snippet_around lines l" "st a"]
        by (cases "generate_fix cl k lang (snippet_around lines l) (st a)") auto
      with True Some Cons show ?thesis by simp
    qed
  qed
qed

text \<open>
  The store after the loop holds, at every address, the finding it held before
  with at most another \<open>fix_code\<close>.
\<close>

lemma fixes_loop_frame:
  "\<exists>fc. fst (snd (fixes_loop cl lines lang fs st k)) a = (st a)\<lparr>fix_code := fc\<rparr>"
proof (induction fs arbitrary: st k)
  case Nil
  have "fst (snd (fixes_loop cl lines lang [] st k)) a = (st a)\<lparr>fix_code := fix_code (st a)\<rparr>"
    by simp
  then show ?case ..
next
  case (Cons b fs)
  show ?case
  proof (cases "line_number (st b)")
    case None
    with Cons show ?thesis by simp
  next
    case (Some l)
    show ?thesis
    proof (cases "l \<noteq> 0 \<and> 1 \<le> l \<and> l \<le> int (length lines)")
      case False
      with Some Cons show ?thesis by auto
    next
      case True
      obtain res k' where call:
        "generate_fix cl k lang (snippet_around lines l) (st b) = (res, k')"
        by (cases "generate_fix cl k lang (snippet_around lines l) (st b)") auto
      show ?thesis
      proof (cases res)
        case (Inl e)
        with call True Some
        have "fst (snd (fixes_loop cl lines lang (b # fs) st k)) a =
            (st a)\<lparr>fix_code := fix_code (st a)\<rparr>"
          by simp
        then show ?thesis ..
      next
        case (Inr fx)
        let ?st = "st(b := (st b)\<lparr>fix_code := fx\<rparr>)"
        from Cons [of ?st k'] obtain fc where
          "fst (snd (fixes_loop cl lines lang fs ?st k')) a = (?st a)\<lparr>fix_code := fc\<rparr>"
          by blast
        moreover have "(?st a)\<lparr>fix_code := fc\<rparr> = (st a)\<lparr>fix_code := fc\<rparr>"
          by simp
        ultimately show ?thesis
          using Inr call True Some by auto
      qed
    qed
  qed
qed

text \<open>
  C9. \<^verbatim>\<open>generate_fixes_for_findings\<close> returns the list it was given, and in the
  store it leaves, every finding has the \<open>line_number\<close>, \<open>severity\<close>, \<open>category\<close>,
  \<open>title\<close>, \<open>description\<close>, \<open>suggestion\<close>, \<open>code_snippet\<close>, \<open>documentation_link\<close>,
  \<open>severity_reason\<close>, \<open>examples\<close>, \<open>best_practice\<close>, \<open>effort_minutes\<close> and
  \<open>dimensions\<close> it had before the call: only \<open>fix_code\<close> can differ.
\<close>

theorem only_fix_code_is_modified:
  "fst (generate_fixes_for_findings cl code_content lang fs st k) = Inr fs \<and>
   (let st' = fst (snd (generate_fixes_for_findings cl code_content lang fs st k))
    in line_number (st' a) = line_number (st a) \<and>
       severity (st' a) = severity (st a) \<and>
       category (st' a) = category (st a) \<and>
       title (st' a) = title (st a) \<and>
       description (st' a) = description (st a) \<and>
       suggestion (st' a) = suggestion (st a) \<and>
       code_snippet (st' a) = code_snippet (st a) \<and>
       documentation_link (st' a) = documentation_link (st a) \<and>
       severity_reason (st' a) = severity_reason (st a) \<and>
       examples (st' a) = examples (st a) \<and>
       best_practice (st' a) = best_practice (st a) \<and>
       effort_minutes (st' a) = effort_minutes (st a) \<and>
       dimensions (st' a) = dimensions (st a))"
proof -
  let ?loop = "fixes_loop cl (split_lines code_content) lang fs st k"
  obtain u st' k' where loop: "?loop = (u, st', k')"
    by (cases ?loop) auto
  with fixes_loop_returns [of cl "split_lines code_content" lang fs st k]
  have u: "u = Inr ()" by simp
  from fixes_loop_frame [of cl "split_lines code_content" lang fs st k a] loop
  obtain fc where frame: "st' a = (st a)\<lparr>fix_code := fc\<rparr>"
    by auto
  have result: "generate_fixes_for_findings cl code_content lang fs st k = (Inr fs, st', k')"
    using loop u by (simp add: generate_fixes_for_findings_def)
  show ?thesis
    unfolding result Let_def by (simp add: frame)
qed

section \<open>Occurrences of a text in a string\<close>

lemma startswith_append: "startswith s (p @ q) \<Longrightarrow> startswith s p"
  by (induction s p rule: startswith.induct) auto

lemma startswith_length: "startswith s p \<Longrightarrow> length p \<le> length s"
  by (induction s p rule: startswith.induct) auto

lemma startswith_self_append: "startswith (p @ s) p"
  by (induction p) simp_all

text \<open>
  \<open>first_occ\<close> returns the least offset at which the text starts, and \<open>None\<close> when
  it starts at none.
\<close>

lemma first_occ_Some_startswith:
  "first_occ sub s = Some i \<Longrightarrow> startswith (drop i s) sub \<and> i \<le> length s"
proof (induction s arbitrary: i)
  case Nil
  then show ?case by (simp split: if_splits)
next
  case (Cons c cs)
  show ?case
  proof (cases "startswith (c # cs) sub")
    case True
    with Cons.prems show ?thesis by simp
  next
    case False
    with Cons.prems obtain j where "first_occ sub cs = Some j" "i = Suc j"
      by auto
    with Cons.IH [of j] show ?thesis by simp
  qed
qed

lemma first_occ_Some_least:
  "first_occ sub s = Some i \<Longrightarrow> j < i \<Longrightarrow> \<not> startswith (drop j s) sub"
proof (induction s arbitrary: i j)
  case Nil
  then show ?case by (simp split: if_splits)
next
  case (Cons c cs)
  show ?case
  proof (cases "startswith (c # cs) sub")
    case True
    with Cons.prems show ?thesis by simp
  next
    case False
    with Cons.prems obtain i' where i': "first_occ sub cs = Some i'" "i = Suc i'"
      by auto
    show ?thesis
    proof (cases j)
      case 0
      with False show ?thesis by simp
    next
      case (Suc j')
      with Cons.prems(2) i' have "j' < i'" by simp
      with Cons.IH [OF i'(1)] Suc show ?thesis by simp
    qed
  qed
qed

lemma first_occ_None_nowhere:
  "first_occ sub s = None \<Longrightarrow> \<not> startswith (drop j s) sub"
proof (induction s arbitrary: j)
  case Nil
  then show ?case by (cases sub) (simp_all split: if_splits)
next
  case (Cons c cs)
  then have here: "\<not> startswith (c # cs) sub" and rest: "first_occ sub cs = None"
    by (auto split: if_splits)
  show ?case
  proof (cases j)
    case 0
    with here show ?thesis by simp
  next
    case (Suc j')
    with Cons.IH [OF rest] show ?thesis by simp
  qed
qed

lemma first_occ_SomeI:
  assumes "startswith (drop i s) sub" and "i \<le> length s"
    and "\<And>j. j < i \<Longrightarrow> \<not> startswith (drop j s) sub"
  shows "first_occ sub s = Some i"
proof (cases "first_occ sub s")
  case None
  with first_occ_None_nowhere [of sub s i] assms(1) show ?thesis by simp
next
  case (Some k)
  have "\<not> k < i"
    using first_occ_Some_startswith [OF Some] assms(3) [of k] by blast
  moreover have "\<not> i < k"
    using first_occ_Some_least [OF Some, of i] assms(1) by blast
  ultimately show ?thesis
    using Some by simp
qed

lemma first_occ_NoneI:
  assumes "\<And>j. \<not> startswith (drop j s) sub"
  shows "first_occ sub s = None"
proof (cases "first_occ sub s")
  case None
  then show ?thesis .
next
  case (Some k)
  with first_occ_Some_startswith [OF Some] assms [of k] show ?thesis by simp
qed

text \<open>A longer text occurs only where its beginning occurs.\<close>

lemma first_occ_longer_None:
  assumes "first_occ p s = Some i" and "length s < i + length (p @ q)"
  shows "first_occ (p @ q) s = None"
proof (rule first_occ_NoneI)
  fix j
  show "\<not> startswith (drop j s) (p @ q)"
  proof
    assume occ: "startswith (drop j s) (p @ q)"
    then have "startswith (drop j s) p"
      by (rule startswith_append)
    with first_occ_Some_least [OF assms(1), of j] have "i \<le> j"
      by (cases "j < i") auto
    moreover from startswith_length [OF occ] have "length (p @ q) \<le> length s - j"
      by simp
    moreover from first_occ_Some_startswith [OF assms(1)] have "i \<le> length s"
      by simp
    ultimately show False
      using assms(2) by simp
  qed
qed

lemma not_contains_prefix: "\<not> contains s p \<Longrightarrow> \<not> contains s (p @ q)"
proof -
  assume "\<not> contains s p"
  then have none: "first_occ p s = None"
    by (simp add: contains_def)
  have "first_occ (p @ q) s = None"
  proof (rule first_occ_NoneI)
    fix j
    show "\<not> startswith (drop j s) (p @ q)"
      using first_occ_None_nowhere [OF none, of j] startswith_append by blast
  qed
  then show ?thesis
    by (simp add: contains_def)
qed

text \<open>Characters that cannot begin the text are skipped.\<close>

lemma first_occ_skip:
  assumes "sub \<noteq> []" and "\<And>c. c \<in> set a \<Longrightarrow> c \<noteq> hd sub"
  shows "first_occ sub (a @ s) = map_option (\<lambda>i. i + length a) (first_occ sub s)"
  using assms(2)
proof (induction a)
  case Nil
  then show ?case by (simp add: option.map_ident)
next
  case (Cons c a)
  from assms(1) obtain x xs where sub: "sub = x # xs"
    by (cases sub) auto
  from Cons.prems [of c] sub have "c \<noteq> x" by simp
  with sub have "\<not> startswith (c # a @ s) sub" by simp
  moreover have "first_occ sub (a @ s) = map_option (\<lambda>i. i + length a) (first_occ sub s)"
    using Cons by simp
  ultimately show ?case
    by (simp add: option.map_comp comp_def)
qed

section \<open>A fenced block around the text of an object\<close>

lemma isspace_not_special:
  "isspace c \<Longrightarrow> c \<noteq> 96 \<and> c \<noteq> 106 \<and> c \<noteq> 123 \<and> c \<noteq> 125"
  by (auto simp: isspace_def)

lemma blank_Cons: "blank (c # cs) \<longleftrightarrow> isspace c \<and> blank cs"
  by (simp add: blank_def)

lemma blank_drop: "blank b \<Longrightarrow> blank (drop n b)"
  by (auto simp: blank_def list_all_iff dest: in_set_dropD)

lemma blank_no_backtick: "blank b \<Longrightarrow> \<not> startswith b (96 # q)"
  by (cases b) (auto simp: blank_Cons dest: isspace_not_special)

text \<open>A fence does not begin in the text before a blank tail unless it lies in that text.\<close>

lemma fence_not_into_blank:
  assumes "blank b" and "\<not> startswith s (lit ''```'')"
  shows "\<not> startswith (s @ b) (lit ''```'')"
proof (cases s)
  case Nil
  with blank_no_backtick [OF assms(1)] show ?thesis by (simp add: lit_def)
next
  case s1: (Cons c y)
  show ?thesis
  proof (cases y)
    case Nil
    with s1 blank_no_backtick [OF assms(1)] show ?thesis by (simp add: lit_def)
  next
    case s2: (Cons d z)
    show ?thesis
    proof (cases z)
      case Nil
      with s1 s2 blank_no_backtick [OF assms(1)] show ?thesis by (simp add: lit_def)
    next
      case (Cons e r)
      with s1 s2 assms(2) show ?thesis by (simp add: lit_def)
    qed
  qed
qed

text \<open>
  Nor does a fence begin in a text that ends with another character, when the
  closing fence follows it.
\<close>

lemma fence_not_before_closing:
  assumes "x \<noteq> []" and "last x \<noteq> 96" and "\<not> startswith x (lit ''```'')"
  shows "\<not> startswith (x @ lit ''```'') (lit ''```'')"
proof (cases x)
  case Nil
  with assms(1) show ?thesis by simp
next
  case x1: (Cons c y)
  show ?thesis
  proof (cases y)
    case Nil
    with x1 assms(2) show ?thesis by (simp add: lit_def)
  next
    case x2: (Cons d z)
    show ?thesis
    proof (cases z)
      case Nil
      with x1 x2 assms(2) show ?thesis by (simp add: lit_def)
    next
      case (Cons e r)
      with x1 x2 assms(3) show ?thesis by (simp add: lit_def)
    qed
  qed
qed

lemma no_fence_between_blanks:
  assumes "blank a" and "blank b" and "first_occ (lit ''```'') J = None"
  shows "first_occ (lit ''```'') (a @ J @ b) = None"
proof -
  have tail: "first_occ (lit ''```'') (J @ b) = None"
  proof (rule first_occ_NoneI)
    fix j
    have "drop j (J @ b) = drop j J @ drop (j - length J) b"
      by simp
    moreover have "\<not> startswith (drop j J @ drop (j - length J) b) (lit ''```'')"
      using first_occ_None_nowhere [OF assms(3), of j] blank_drop [OF assms(2)]
      by (intro fence_not_into_blank)
    ultimately show "\<not> startswith (drop j (J @ b)) (lit ''```'')"
      by simp
  qed
  have "\<And>c. c \<in> set a \<Longrightarrow> c \<noteq> hd (lit ''```'')"
    using assms(1) by (auto simp: blank_def list_all_iff lit_def dest: isspace_not_special)
  then have "first_occ (lit ''```'') (a @ J @ b) =
      map_option (\<lambda>i. i + length a) (first_occ (lit ''```'') (J @ b))"
    by (intro first_occ_skip) (simp_all add: lit_def)
  with tail show ?thesis by simp
qed

lemma closing_fence_found:
  assumes "body \<noteq> []" and "last body \<noteq> 96" and "first_occ (lit ''```'') body = None"
  shows "first_occ (lit ''```'') (body @ lit ''```'') = Some (length body)"
proof (rule first_occ_SomeI)
  show "startswith (drop (length body) (body @ lit ''```'')) (lit ''```'')"
    by (simp add: lit_def)
  show "length body \<le> length (body @ lit ''```'')"
    by simp
  fix j assume j: "j < length body"
  then have "drop j body \<noteq> []" "last (drop j body) = last body"
    by simp_all
  with assms(2) first_occ_None_nowhere [OF assms(3), of j]
  have "\<not> startswith (drop j body @ lit ''```'') (lit ''```'')"
    by (intro fence_not_before_closing) simp_all
  with j show "\<not> startswith (drop j (body @ lit ''```'')) (lit ''```'')"
    by simp
qed

subsection \<open>Stripping\<close>

lemma rstrip_blank_tail:
  assumes "blank b"
  shows "rstrip (s @ b) = rstrip s"
proof -
  have "dropWhile isspace (rev b @ rev s) = dropWhile isspace (rev s)"
    using assms by (intro dropWhile_append2) (simp add: blank_def list_all_iff)
  then show ?thesis
    by (simp add: rstrip_def)
qed

lemma rstrip_decomposition: "\<exists>w. blank w \<and> s = rstrip s @ w"
proof -
  have "rev s = takeWhile isspace (rev s) @ dropWhile isspace (rev s)"
    by simp
  then have "s = rev (dropWhile isspace (rev s)) @ rev (takeWhile isspace (rev s))"
    by (metis rev_append rev_rev_ident)
  moreover have "blank (rev (takeWhile isspace (rev s)))"
    by (auto simp: blank_def list_all_iff dest: set_takeWhileD)
  ultimately show ?thesis
    unfolding rstrip_def by blast
qed

lemma strip_between_blanks:
  assumes "blank a" and "blank b" and "c \<in> set J" and "\<not> isspace c"
  shows "strip (a @ J @ b) = strip J"
proof -
  have "dropWhile isspace (a @ J @ b) = dropWhile isspace (J @ b)"
    using assms(1) by (simp add: blank_def list_all_iff)
  also have "\<dots> = dropWhile isspace J @ b"
    using assms(3,4) by (rule dropWhile_append1)
  finally show ?thesis
    using assms(2) by (simp add: strip_def rstrip_blank_tail)
qed

text \<open>
  What the shape of an object's text gives: past its leading blanks the text
  begins with the brace, it has a character that is not blank, and its first
  and last characters are blanks or braces.
\<close>

lemma object_text_facts:
  assumes "object_text J"
  shows "dropWhile isspace J \<noteq> []" and "hd (dropWhile isspace J) = 123"
    and "J \<noteq> []" and "123 \<in> set J"
    and "isspace (hd J) \<or> hd J = 123" and "isspace (last J) \<or> last J = 125"
proof -
  let ?D = "dropWhile isspace J"
  from assms have t: "rstrip ?D \<noteq> []" "hd (rstrip ?D) = 123" "last (rstrip ?D) = 125"
    by (simp_all add: object_text_def strip_def Let_def)
  obtain w where w: "blank w" "?D = rstrip ?D @ w"
    using rstrip_decomposition by blast
  have "rstrip [] = []"
    by (simp add: rstrip_def)
  with t(1) show D: "?D \<noteq> []"
    by metis
  from t(1,2) w(2) show hd: "hd ?D = 123"
    by (metis hd_append2)
  from D show "J \<noteq> []"
    by auto
  from D hd have "123 \<in> set ?D"
    by (metis list.set_sel(1))
  then show "123 \<in> set J"
    by (rule set_dropWhileD)
  show "isspace (hd J) \<or> hd J = 123"
  proof (cases "isspace (hd J)")
    case True
    then show ?thesis ..
  next
    case False
    with \<open>J \<noteq> []\<close> have "?D = J"
      by (cases J) auto
    with hd show ?thesis by simp
  qed
  have "last J = last ?D"
    using D by (metis takeWhile_dropWhile_id last_appendR)
  also have "isspace (last ?D) \<or> last ?D = 125"
  proof (cases "w = []")
    case True
    with w(2) t(3) show ?thesis by simp
  next
    case False
    then have "last ?D = last w"
      using w(2) by (metis last_appendR)
    moreover from False w(1) have "isspace (last w)"
      by (auto simp: blank_def list_all_iff)
    ultimately show ?thesis by simp
  qed
  finally show "isspace (last J) \<or> last J = 125" .
qed

subsection \<open>The candidate of a text and of the stripped text\<close>

lemma match_brace_no_braces:
  "\<forall>x\<in>set w. x \<noteq> 123 \<and> x \<noteq> 125 \<Longrightarrow> match_brace w i c = None"
  by (induction w arbitrary: i c) simp_all

lemma match_brace_blank_tail:
  "\<forall>x\<in>set w. x \<noteq> 123 \<and> x \<noteq> 125 \<Longrightarrow> match_brace (t @ w) i c = match_brace t i c"
  by (induction t arbitrary: i c) (simp_all add: match_brace_no_braces)

lemma match_brace_shift:
  "match_brace s i c = map_option (\<lambda>e. e + i) (match_brace s 0 c)"
proof (induction s arbitrary: i c)
  case Nil
  then show ?case by simp
next
  case (Cons x xs)
  have shift: "\<And>c'. match_brace xs (Suc i) c' =
      map_option (\<lambda>e. e + i) (match_brace xs (Suc 0) c')"
    using Cons [of "Suc i"] Cons [of "Suc 0"]
    by (simp add: option.map_comp comp_def)
  show ?case
    by (simp add: shift)
qed

lemma match_brace_bound:
  "match_brace s i c = Some e \<Longrightarrow> i < e \<and> e \<le> i + length s"
proof (induction s arbitrary: i c)
  case Nil
  then show ?case by simp
next
  case (Cons x xs)
  then show ?case
    by (fastforce split: if_splits)
qed

text \<open>The candidate, relative to the text from the brace on.\<close>

lemma json_str_from_brace:
  assumes "i \<le> length r"
  shows "json_str r i =
     take (case match_brace (drop i r) 0 0 of None \<Rightarrow> 0 | Some e \<Rightarrow> e) (drop i r)"
proof (cases "match_brace (drop i r) 0 0")
  case None
  then have "match_brace (drop i r) i 0 = None"
    using match_brace_shift [of "drop i r" i 0] by simp
  with None show ?thesis
    by (simp add: json_str_def end_idx_def slice_def)
next
  case (Some e)
  then have abs: "match_brace (drop i r) i 0 = Some (e + i)"
    using match_brace_shift [of "drop i r" i 0] by simp
  from match_brace_bound [OF Some] have "e \<le> length r - i"
    by simp
  with assms have "e + i \<le> length r"
    by arith
  with assms have "clip r (int (e + i)) = e + i" "clip r (int i) = i"
    by (auto simp: clip_def Let_def min_def)
  with Some abs show ?thesis
    by (simp add: json_str_def end_idx_def slice_def)
qed

text \<open>
  For the text of an object, the first brace and the candidate are the same
  before and after stripping.
\<close>

lemma object_text_candidate:
  assumes "object_text J"
  shows "find J (lit ''{'') = int (length (takeWhile isspace J))"
    and "find (strip J) (lit ''{'') = int 0"
    and "json_str (strip J) 0 = json_str J (length (takeWhile isspace J))"
proof -
  let ?n = "length (takeWhile isspace J)"
  let ?D = "dropWhile isspace J"
  note facts = object_text_facts [OF assms]
  from facts(1,2) obtain D' where D: "?D = 123 # D'"
    by (cases ?D) auto
  have J: "J = takeWhile isspace J @ ?D"
    by simp
  have drop: "drop ?n J = ?D"
    by (metis J append_eq_conv_conj)
  have skip: "first_occ [123] (takeWhile isspace J @ ?D) =
      map_option (\<lambda>i. i + ?n) (first_occ [123] ?D)"
    by (intro first_occ_skip) (auto dest: set_takeWhileD isspace_not_special)
  have "first_occ [123] ?D = Some 0"
    using D by simp
  with skip have "first_occ [123] (takeWhile isspace J @ ?D) = Some ?n"
    by simp
  then have "first_occ [123] J = Some ?n"
    by (simp only: takeWhile_dropWhile_id)
  then show "find J (lit ''{'') = int ?n"
    by (simp add: find_def find_from_def lit_def)
  obtain w where w: "blank w" "?D = rstrip ?D @ w"
    using rstrip_decomposition by blast
  from assms have t: "rstrip ?D \<noteq> []" "hd (rstrip ?D) = 123"
    by (simp_all add: object_text_def strip_def Let_def)
  then obtain t' where stripped: "rstrip ?D = 123 # t'"
    by (cases "rstrip ?D") auto
  then show "find (strip J) (lit ''{'') = int 0"
    by (simp add: find_def find_from_def lit_def strip_def)
  have no_braces: "\<forall>x\<in>set w. x \<noteq> 123 \<and> x \<noteq> 125"
    using w(1) by (auto simp: blank_def list_all_iff dest: isspace_not_special)
  have same: "match_brace ?D 0 0 = match_brace (rstrip ?D) 0 0"
    using match_brace_blank_tail [OF no_braces, of "rstrip ?D" 0 0] w(2) by simp
  have "json_str J ?n =
      take (case match_brace ?D 0 0 of None \<Rightarrow> 0 | Some e \<Rightarrow> e) ?D"
    using json_str_from_brace [of ?n J] drop by (simp add: length_takeWhile_le)
  also have "\<dots> = take (case match_brace (rstrip ?D) 0 0 of None \<Rightarrow> 0 | Some e \<Rightarrow> e)
      (rstrip ?D @ w)"
    using same w(2) by simp
  also have "\<dots> = take (case match_brace (rstrip ?D) 0 0 of None \<Rightarrow> 0 | Some e \<Rightarrow> e)
      (rstrip ?D)"
  proof (cases "match_brace (rstrip ?D) 0 0")
    case None
    then show ?thesis by simp
  next
    case (Some e)
    with match_brace_bound [OF Some] show ?thesis by simp
  qed
  also have "\<dots> = json_str (strip J) 0"
    using json_str_from_brace [of 0 "strip J"] by (simp add: strip_def)
  finally show "json_str (strip J) 0 = json_str J ?n"
    by simp
qed

text \<open>
  The parser reads its input only through the cleaned response, there only
  through the place of the first brace and the candidate.
\<close>

lemma parse_llm_response_cong:
  assumes "find (clean_response r1) (lit ''{'') = int i1"
    and "find (clean_response r2) (lit ''{'') = int i2"
    and "json_str (clean_response r1) i1 = json_str (clean_response r2) i2"
  shows "parse_llm_response loads C r1 path lang = parse_llm_response loads C r2 path lang"
  using assms by (simp add: parse_llm_response_def parse_body_def Let_def)

subsection \<open>Cleaning a fenced block\<close>

lemma first_occ_at_start: "sub \<noteq> [] \<Longrightarrow> first_occ sub (sub @ rest) = Some 0"
  by (cases sub) (simp_all add: startswith_self_append)

lemma clean_response_no_fence:
  assumes "\<not> contains J (lit ''```'')"
  shows "clean_response J = J"
proof -
  have "lit ''```json'' = lit ''```'' @ lit ''json''"
    by (simp add: lit_def)
  with not_contains_prefix [OF assms, of "lit ''json''"]
  have "\<not> contains J (lit ''```json'')"
    by simp
  with assms show ?thesis
    by (simp add: clean_response_def)
qed

text \<open>
  The search for the closing fence from the end of the opening text \<open>p\<close>, and the
  slice between the two.
\<close>

lemma fence_content:
  assumes "first_occ (lit ''```'') (body @ lit ''```'') = Some (length body)"
  shows "find_from (p @ body @ lit ''```'') (lit ''```'') (int (length p)) =
           int (length p) + int (length body)"
    and "slice (p @ body @ lit ''```'') (int (length p)) (int (length p) + int (length body)) =
           body"
proof -
  show "find_from (p @ body @ lit ''```'') (lit ''```'') (int (length p)) =
      int (length p) + int (length body)"
    using assms by (simp add: find_from_def)
  have "clip (p @ body @ lit ''```'') (int (length p)) = length p"
    by (simp add: clip_def Let_def min_def lit_def)
  moreover have "clip (p @ body @ lit ''```'') (int (length p) + int (length body)) =
      length p + length body"
    by (simp add: clip_def Let_def min_def nat_add_distrib lit_def)
  ultimately show "slice (p @ body @ lit ''```'')
      (int (length p)) (int (length p) + int (length body)) = body"
    by (simp add: slice_def)
qed

lemma no_json_fence_after_fence:
  assumes "s \<noteq> []" and "hd s \<noteq> 96" and "hd s \<noteq> 106"
  shows "first_occ (lit ''```json'') (lit ''```'' @ s) =
     map_option (\<lambda>i. i + 3) (first_occ (lit ''```json'') s)"
proof -
  from assms obtain c s' where "s = c # s'" "c \<noteq> 96" "c \<noteq> 106"
    by (cases s) auto
  then show ?thesis
    by (cases "first_occ [96, 96, 96, 106, 115, 111, 110] s'") (simp_all add: lit_def)
qed

lemma clean_response_fenced:
  assumes "object_text J" and "\<not> contains J (lit ''```'')" and "blank a" and "blank b"
    and "tag = lit ''json'' \<or> tag = []"
  shows "clean_response (fenced tag a J b) = strip J"
proof -
  let ?T = "lit ''```''"
  define body where "body = a @ J @ b"
  note facts = object_text_facts [OF assms(1)]
  have nonempty: "body \<noteq> []"
    using facts(3) by (simp add: body_def)
  have first: "isspace (hd body) \<or> hd body = 123"
  proof (cases a)
    case Nil
    with facts(3,5) show ?thesis by (simp add: body_def)
  next
    case (Cons c a')
    with assms(3) show ?thesis by (simp add: body_def blank_Cons)
  qed
  have final: "isspace (last body) \<or> last body = 125"
  proof (cases "b = []")
    case True
    with facts(3,6) show ?thesis by (simp add: body_def)
  next
    case False
    with assms(4) have "isspace (last b)"
      by (auto simp: blank_def list_all_iff)
    with False show ?thesis by (simp add: body_def)
  qed
  from first have hd_body: "hd body \<noteq> 96" "hd body \<noteq> 106"
    by (auto dest: isspace_not_special)
  from final have last_body: "last body \<noteq> 96"
    by (auto dest: isspace_not_special)
  have none: "first_occ ?T body = None"
    unfolding body_def
    using assms(2,3,4) by (intro no_fence_between_blanks) (simp_all add: contains_def)
  have closing: "first_occ ?T (body @ ?T) = Some (length body)"
    using nonempty last_body none by (rule closing_fence_found)
  have visible: "\<not> isspace 123"
    by (simp add: isspace_def)
  have stripped: "strip body = strip J"
    unfolding body_def
    using assms(3,4) facts(4) visible by (rule strip_between_blanks)
  have longer: "0 < length body"
    using nonempty by simp
  from assms(5) show ?thesis
  proof
    assume tag: "tag = lit ''json''"
    let ?p = "lit ''```json''"
    have W: "fenced tag a J b = ?p @ body @ ?T"
      by (simp add: fenced_def tag lit_def body_def)
    have found: "first_occ ?p (?p @ body @ ?T) = Some 0"
      by (rule first_occ_at_start) (simp add: lit_def)
    have has: "contains (?p @ body @ ?T) ?p"
      using found by (simp add: contains_def)
    have at: "find (?p @ body @ ?T) ?p = 0"
      using found by (simp add: find_def find_from_def)
    have len: "int (length ?p) = 7"
      by (simp add: lit_def)
    note content = fence_content [OF closing, of ?p, unfolded len]
    show ?thesis
      unfolding W clean_response_def
      using longer by (simp add: has at content stripped Let_def)
  next
    assume tag: "tag = []"
    have W: "fenced tag a J b = ?T @ body @ ?T"
      by (simp add: fenced_def tag body_def)
    have "length (body @ ?T) < length body + length (?T @ lit ''json'')"
      by (simp add: lit_def)
    from first_occ_longer_None [OF closing this]
    have "first_occ (lit ''```json'') (body @ ?T) = None"
      by (simp add: lit_def)
    moreover have "first_occ (lit ''```json'') (?T @ (body @ ?T)) =
        map_option (\<lambda>i. i + 3) (first_occ (lit ''```json'') (body @ ?T))"
      using nonempty hd_body by (intro no_json_fence_after_fence) simp_all
    ultimately have untagged: "\<not> contains (?T @ body @ ?T) (lit ''```json'')"
      by (simp add: contains_def)
    have found: "first_occ ?T (?T @ body @ ?T) = Some 0"
      by (rule first_occ_at_start) (simp add: lit_def)
    have has: "contains (?T @ body @ ?T) ?T"
      using found by (simp add: contains_def)
    have at: "find (?T @ body @ ?T) ?T = 0"
      using found by (simp add: find_def find_from_def)
    have len: "int (length ?T) = 3"
      by (simp add: lit_def)
    note content = fence_content [OF closing, of ?T, unfolded len]
    from assms(1) obtain t' where "strip J = 123 # t'"
      by (cases "strip J") (auto simp: object_text_def Let_def)
    then have no_tag: "\<not> startswith (strip J) (lit ''json'')"
      by (simp add: lit_def)
    show ?thesis
      unfolding W clean_response_def
      using longer by (simp add: has untagged at content stripped no_tag Let_def)
  qed
qed

text \<open>
  C6, the claim as stated fails: the object \<^verbatim>\<open>{"summary":"```"}\<close> is valid JSON
  and parses, with the summary of three backticks; inside a fenced block tagged
  \<^verbatim>\<open>json\<close> the search for the closing fence stops at the backticks of the
  string, the braces of what is left do not balance, and the response is the
  diagnostic one.
\<close>

theorem fenced_object_counterexample:
  \<open>parse_llm_response json_loads no_coercions (lit ''{"summary":"```"}'') (lit ''a.py'')
     (lit ''python'') =
     Inr \<lparr>file_path = lit ''a.py'', language = lit ''python'', findings = [],
          summary = lit ''```'', total_issues = 0, token_usage = None\<rparr> \<and>
   parse_llm_response json_loads no_coercions
     (fenced (lit ''json'') [10] (lit ''{"summary":"```"}'') [10]) (lit ''a.py'')
     (lit ''python'') =
     Inr \<lparr>file_path = lit ''a.py'', language = lit ''python'', findings = [],
          summary = lit ''JSON parsing failed: '' @
                    lit ''Expecting value: line 1 column 1 (char 0)'' @
                    lit ''. Response may be truncated.'',
          total_issues = 0, token_usage = None\<rparr>\<close>
proof -
  let ?u = \<open>lit ''{"summary":"```"}''\<close>
  let ?d = "PDict [(lit ''summary'', PStr (lit ''```''))]"
  have clean: "clean_response ?u = ?u"
    by (simp add: cleaning_defs)
  have start: "find ?u (lit ''{'') = int 0"
    by (simp add: cleaning_defs)
  have cand: "json_str ?u 0 = ?u"
    by (simp add: cleaning_defs)
  have strict: "json_loads ?u = Inr ?d"
    by (simp add: decoder_defs cong: sum.case_cong_weak prod.case_cong_weak
        option.case_cong_weak list.case_cong_weak)
  have counted: "report_count ?d = Inr 0"
    by (simp add: response_defs)
  have built: "build_response no_coercions ?d (lit ''a.py'') (lit ''python'') =
     Inr \<lparr>file_path = lit ''a.py'', language = lit ''python'', findings = [],
          summary = lit ''```'', total_issues = 0, token_usage = None\<rparr>"
    by (simp add: response_defs)
  note bare = parse_success_response [where loads = json_loads, OF clean start cand strict
      counted built]
  let ?w = \<open>fenced (lit ''json'') [10] (lit ''{"summary":"```"}'') [10]\<close>
  have clean': \<open>clean_response ?w = lit ''{"summary":"''\<close>
    by (simp add: fenced_def cleaning_defs)
  have start': \<open>find (lit ''{"summary":"'') (lit ''{'') = int 0\<close>
    by (simp add: cleaning_defs)
  have cand': \<open>json_str (lit ''{"summary":"'') 0 = []\<close>
    by (simp add: cleaning_defs)
  note wrapped = parse_failure_response [where loads = json_loads and C = no_coercions
      and path = "lit ''a.py''" and lang = "lit ''python''", OF clean' start' cand'
      json_loads_empty aggressive_fixes_empty json_loads_empty]
  from bare wrapped show ?thesis
    by (simp only: simp_thms)
qed

text \<open>
  C6, amended. Let \<open>J\<close> have the shape of an object's text and contain no triple
  backtick. Then a fenced block around \<open>J\<close>, tagged \<^verbatim>\<open>json\<close> or not tagged, with
  any blanks between the fences and \<open>J\<close>, gives the same response as \<open>J\<close> alone,
  whatever \<^verbatim>\<open>json.loads\<close> does.
\<close>

theorem fenced_object_parses_alike:
  assumes "object_text J" and "\<not> contains J (lit ''```'')" and "blank a" and "blank b"
    and "tag = lit ''json'' \<or> tag = []"
  shows "parse_llm_response loads C (fenced tag a J b) path lang =
         parse_llm_response loads C J path lang"
proof (rule parse_llm_response_cong)
  show "find (clean_response (fenced tag a J b)) (lit ''{'') = int 0"
    using clean_response_fenced [OF assms] object_text_candidate(2) [OF assms(1)] by simp
  show "find (clean_response J) (lit ''{'') = int (length (takeWhile isspace J))"
    using clean_response_no_fence [OF assms(2)] object_text_candidate(1) [OF assms(1)]
    by simp
  show "json_str (clean_response (fenced tag a J b)) 0 =
      json_str (clean_response J) (length (takeWhile isspace J))"
    using clean_response_fenced [OF assms] clean_response_no_fence [OF assms(2)]
      object_text_candidate(3) [OF assms(1)]
    by simp
qed

theorem fenced_object_parses_alike_witness:
  \<open>object_text (lit ''{"summary": "ok"}'') \<and>
   \<not> contains (lit ''{"summary": "ok"}'') (lit ''```'') \<and>
   blank [10] \<and>
   (lit ''json'' = lit ''json'' \<or> lit ''json'' = []) \<and>
   parse_llm_response json_loads no_coercions
     (fenced (lit ''json'') [10] (lit ''{"summary": "ok"}'') [10]) (lit ''a.py'')
     (lit ''python'') =
   parse_llm_response json_loads no_coercions (lit ''{"summary": "ok"}'') (lit ''a.py'')
     (lit ''python'')\<close>
proof -
  have shape: \<open>object_text (lit ''{"summary": "ok"}'')\<close>
    by (simp add: object_text_def strip_def rstrip_def isspace_def lit_def)
  have no_fence: \<open>\<not> contains (lit ''{"summary": "ok"}'') (lit ''```'')\<close>
    by (simp add: contains_def lit_def)
  have newline: "blank [10]"
    by (simp add: blank_def isspace_def)
  have tagged: "lit ''json'' = lit ''json'' \<or> lit ''json'' = []"
    by simp
  from fenced_object_parses_alike [OF shape no_fence newline newline tagged,
      of json_loads no_coercions "lit ''a.py''" "lit ''python''"]
    shape no_fence newline tagged
  show ?thesis
    by (simp only: simp_thms)
qed

end
